theory Spec2Isabelle
  imports Complex_Main
begin

section \<open>Python values used by \<open>dataset.py\<close>\<close>

text \<open>
  The module \<open>dataset.py\<close> turns question answering annotations into feature records.
  Python integers are unbounded and are modelled by \<open>int\<close>; list lengths and loop
  indices that Python guarantees to be non-negative are \<open>nat\<close>. A Python \<open>str\<close> is a
  \<open>string\<close>: one \<open>char\<close> stands for one code point, and the code below only
  compares, concatenates, measures and slices strings. Every exception the code can
  raise on well-typed input is a value of \<open>error\<close>.
\<close>

datatype error = IndexError | ValueError | TypeError | NameError | OverflowError

text \<open>\<open>xs[a:b]\<close> for non-negative bounds: both bounds are clipped to the length.\<close>

definition slice :: "'a list \<Rightarrow> nat \<Rightarrow> nat \<Rightarrow> 'a list" where
  "slice xs a b = take (b - a) (drop a xs)"

text \<open>A slice bound of any sign: a negative bound counts from the end and is clipped at 0.\<close>

definition slice_bound :: "nat \<Rightarrow> int \<Rightarrow> nat" where
  "slice_bound n i = (if i < 0 then nat (max (int n + i) 0) else min (nat i) n)"

definition py_slice :: "'a list \<Rightarrow> int \<Rightarrow> int \<Rightarrow> 'a list" where
  "py_slice xs a b = slice xs (slice_bound (length xs) a) (slice_bound (length xs) b)"

section \<open>The span aligner \<open>_improve_answer_span\<close>\<close>

text \<open>
  The test of the innermost statement:
  \<open>''.join(doc_tokens[new_start:(new_end + 1)]) == ''.join(answer_tokens)\<close>.
\<close>

definition span_matches :: "string list \<Rightarrow> string list \<Rightarrow> nat \<Rightarrow> nat \<Rightarrow> bool" where
  "span_matches doc_tokens answer_tokens new_start new_end \<longleftrightarrow>
     concat (slice doc_tokens new_start (new_end + 1)) = concat answer_tokens"

text \<open>
  The inner loop \<open>for new_end in range(len(doc_tokens)-1, new_start - 1, -1)\<close> runs over
  the list of its candidates and returns at the first hit.
\<close>

fun scan_ends :: "string list \<Rightarrow> string list \<Rightarrow> nat \<Rightarrow> nat list \<Rightarrow> (nat \<times> nat) option" where
  "scan_ends doc_tokens answer_tokens new_start [] = None"
| "scan_ends doc_tokens answer_tokens new_start (new_end # rest) =
     (if span_matches doc_tokens answer_tokens new_start new_end then Some (new_start, new_end)
      else scan_ends doc_tokens answer_tokens new_start rest)"

text \<open>The outer loop \<open>for new_start in range(0, len(doc_tokens))\<close>.\<close>

fun scan_starts :: "string list \<Rightarrow> string list \<Rightarrow> nat list \<Rightarrow> (nat \<times> nat) option" where
  "scan_starts doc_tokens answer_tokens [] = None"
| "scan_starts doc_tokens answer_tokens (new_start # rest) =
     (case scan_ends doc_tokens answer_tokens new_start (rev [new_start..<length doc_tokens]) of
        Some r \<Rightarrow> Some r
      | None \<Rightarrow> scan_starts doc_tokens answer_tokens rest)"

definition improve_answer_span :: "string list \<Rightarrow> string list \<Rightarrow> int \<Rightarrow> int \<Rightarrow> int \<times> int" where
  "improve_answer_span doc_tokens answer_tokens input_start input_end =
     (case scan_starts doc_tokens answer_tokens [0..<length doc_tokens] of
        Some (new_start, new_end) \<Rightarrow> (int new_start, int new_end)
      | None \<Rightarrow> (input_start, input_end))"


section \<open>Python floats\<close>

text \<open>
  The max-context score is computed in Python floats, which are IEEE 754 binary64
  numbers, rounded to the nearest representable number, ties to the even mantissa. A
  finite float is a pair \<open>(m, e)\<close>, the number \<open>m * 2 ^ e\<close>, where the mantissa \<open>m\<close> has at
  most 53 bits; a float of magnitude \<open>2 ^ 1024\<close> or more does not exist, and an operation that
  would round to one yields an infinity. The exponent has no lower bound here: the
  floats of the score are an integer, the literal \<open>0.01\<close>, the product of \<open>0.01\<close> and an
  integer, and the sum of an integer and such a product, all of them zero or of
  magnitude at least \<open>2 ^ -59\<close>, far above the range where binary64 loses precision.
  Not-a-number does not arise and the sign of zero does not affect a comparison.
\<close>

type_synonym finite_float = "int \<times> int"

datatype pyfloat = NegInf | Fin finite_float | PosInf

text \<open>\<open>n.bit_length()\<close> for a positive \<open>n\<close>: the number of binary digits.\<close>

function bit_length :: "int \<Rightarrow> int" where
  "bit_length n = (if n \<le> 0 then 0 else 1 + bit_length (n div 2))"
  by pat_completeness auto

termination
  by (relation "measure nat") auto

declare bit_length.simps [simp del]

text \<open>The integer nearest to \<open>n / d\<close> for a positive \<open>d\<close>, the even one of two equally near.\<close>

definition round_half_even :: "int \<Rightarrow> int \<Rightarrow> int" where
  "round_half_even n d =
     (let q = n div d; r = n mod d
      in if 2 * r < d then q else if d < 2 * r then q + 1 else if even q then q else q + 1)"

text \<open>
  Rounding to 53 bits: \<open>nearest n d k\<close> is the pair \<open>(m, e)\<close> of the float \<open>m * 2 ^ e\<close> nearest
  to the number \<open>n / d * 2 ^ k\<close>, for a positive \<open>d\<close>. The exponent \<open>e\<close> is the one for which
  \<open>\<bar>n\<bar> / d / 2 ^ e\<close> lies between \<open>2 ^ 52\<close> and \<open>2 ^ 53\<close>; this quotient is rounded to an
  integer, and a quotient rounded up to \<open>2 ^ 53\<close> is the mantissa \<open>2 ^ 52\<close> of the next
  exponent. Zero is \<open>(0, 0)\<close>.
\<close>

definition scaled :: "int \<Rightarrow> int \<Rightarrow> int \<Rightarrow> int \<times> int" where
  "scaled a d e = (if 0 \<le> e then (a, d * 2 ^ nat e) else (a * 2 ^ nat (- e), d))"

definition nearest :: "int \<Rightarrow> int \<Rightarrow> int \<Rightarrow> finite_float" where
  "nearest n d k =
     (if n = 0 then (0, 0)
      else
        let a = \<bar>n\<bar>;
            e0 = bit_length a - bit_length d - 53;
            e = (if fst (scaled a d e0) < 2 ^ 53 * snd (scaled a d e0) then e0 else e0 + 1);
            m = round_half_even (fst (scaled a d e)) (snd (scaled a d e))
        in if m = 2 ^ 53 then (sgn n * 2 ^ 52, e + 1 + k) else (sgn n * m, e + k))"

text \<open>A rounded result of magnitude \<open>2 ^ 1024\<close> or more is out of the range of the floats.\<close>

definition out_of_range :: "finite_float \<Rightarrow> bool" where
  "out_of_range f \<longleftrightarrow> 1024 < bit_length \<bar>fst f\<bar> + snd f"

definition finite_or_inf :: "finite_float \<Rightarrow> pyfloat" where
  "finite_or_inf f = (if out_of_range f then (if 0 < fst f then PosInf else NegInf) else Fin f)"

text \<open>
  The conversion of an integer operand to a float raises \<open>OverflowError\<close> when the
  integer is too large. The product and the sum of two finite floats are rounded, and
  overflow to an infinity; the sum of a finite float and an infinity is that infinity.
\<close>

definition float_of_int :: "int \<Rightarrow> error + finite_float" where
  "float_of_int i =
     (if out_of_range (nearest i 1 0) then Inl OverflowError else Inr (nearest i 1 0))"

definition float_mul :: "finite_float \<Rightarrow> finite_float \<Rightarrow> pyfloat" where
  "float_mul x y = finite_or_inf (nearest (fst x * fst y) 1 (snd x + snd y))"

fun float_add :: "finite_float \<Rightarrow> pyfloat \<Rightarrow> pyfloat" where
  "float_add x (Fin y) =
     (let k = min (snd x) (snd y)
      in finite_or_inf
           (nearest (fst x * 2 ^ nat (snd x - k) + fst y * 2 ^ nat (snd y - k)) 1 k))"
| "float_add x PosInf = PosInf"
| "float_add x NegInf = NegInf"

text \<open>The literal \<open>0.01\<close>: the float nearest to \<open>1 / 100\<close>.\<close>

definition literal_001 :: finite_float where
  "literal_001 = nearest 1 100 0"

text \<open>
  The expression \<open>m + 0.01 * l\<close> for integers \<open>m\<close> and \<open>l\<close>: \<open>l\<close> is converted and multiplied
  by \<open>0.01\<close>, then \<open>m\<close> is converted and the product is added to it.
\<close>

definition py_score :: "int \<Rightarrow> int \<Rightarrow> error + pyfloat" where
  "py_score m l =
     (case float_of_int l of
        Inl e \<Rightarrow> Inl e
      | Inr lf \<Rightarrow>
          (case float_of_int m of
             Inl e \<Rightarrow> Inl e
           | Inr mf \<Rightarrow> Inr (float_add mf (float_mul literal_001 lf))))"

section \<open>The max-context resolver\<close>

text \<open>
  \<open>_check_is_max_context\<close> reads its document spans by attribute (\<open>doc_span.start\<close>,
  \<open>doc_span.length\<close>): objects with these two attributes are the record \<open>DocSpan\<close>.
  \<open>_new_check_is_max_context\<close> reads dictionaries by key (\<open>doc_span["start"]\<close>,
  \<open>doc_span["length"]\<close>): a dictionary holding these two keys is a record of the scheme
  \<open>doc_span\<close>, which the dictionaries of the window slicer extend by their other keys.
  The field \<open>length'\<close> is the attribute or key \<open>length\<close>.
\<close>

record DocSpan =
  start :: int
  length' :: int

record doc_span =
  start :: int
  length' :: int

text \<open>
  The score \<open>min(num_left_context, num_right_context) + 0.01 * doc_span.length\<close> is a
  Python float. The functions below take its evaluation as the parameter \<open>fl\<close>: \<open>fl m l\<close>
  is the outcome of \<open>m + 0.01 * l\<close>, a value of a type with a comparison or the exception
  the evaluation raises. The code is the instance \<open>fl = py_score\<close>, the evaluation in
  binary64 arithmetic.

  The loop over \<open>enumerate(doc_spans)\<close>. Its state is the pair of \<open>best_score\<close> and
  \<open>best_span_index\<close>, which are \<open>None\<close> together and assigned together.
\<close>

fun check_loop ::
  "(int \<Rightarrow> int \<Rightarrow> error + 'f::ord) \<Rightarrow> int \<Rightarrow> (nat \<times> DocSpan) list \<Rightarrow> ('f \<times> nat) option
    \<Rightarrow> error + ('f \<times> nat) option" where
  "check_loop fl position [] best = Inr best"
| "check_loop fl position ((span_index, doc_span) # rest) best =
     (let end' = DocSpan.start doc_span + DocSpan.length' doc_span - 1 in
      if position < DocSpan.start doc_span then check_loop fl position rest best
      else if position > end' then check_loop fl position rest best
      else
        let num_left_context = position - DocSpan.start doc_span;
            num_right_context = end' - position
        in case fl (min num_left_context num_right_context) (DocSpan.length' doc_span) of
             Inl e \<Rightarrow> Inl e
           | Inr score \<Rightarrow>
               if (case best of None \<Rightarrow> True | Some (best_score, _) \<Rightarrow> score > best_score)
               then check_loop fl position rest (Some (score, span_index))
               else check_loop fl position rest best)"

text \<open>
  \<open>return cur_span_index == best_span_index\<close>: an integer is never equal to \<open>None\<close>.
\<close>

definition check_is_max_context ::
  "(int \<Rightarrow> int \<Rightarrow> error + 'f::ord) \<Rightarrow> DocSpan list \<Rightarrow> int \<Rightarrow> int \<Rightarrow> error + bool" where
  "check_is_max_context fl doc_spans cur_span_index position =
     (case check_loop fl position (enumerate 0 doc_spans) None of
        Inl e \<Rightarrow> Inl e
      | Inr None \<Rightarrow> Inr False
      | Inr (Some (best_score, best_span_index)) \<Rightarrow> Inr (cur_span_index = int best_span_index))"

fun new_check_loop ::
  "(int \<Rightarrow> int \<Rightarrow> error + 'f::ord) \<Rightarrow> int \<Rightarrow> (nat \<times> 'a doc_span_scheme) list
    \<Rightarrow> ('f \<times> nat) option \<Rightarrow> error + ('f \<times> nat) option" where
  "new_check_loop fl position [] best = Inr best"
| "new_check_loop fl position ((span_index, doc_span) # rest) best =
     (let end' = start doc_span + length' doc_span - 1 in
      if position < start doc_span then new_check_loop fl position rest best
      else if position > end' then new_check_loop fl position rest best
      else
        let num_left_context = position - start doc_span;
            num_right_context = end' - position
        in case fl (min num_left_context num_right_context) (length' doc_span) of
             Inl e \<Rightarrow> Inl e
           | Inr score \<Rightarrow>
               if (case best of None \<Rightarrow> True | Some (best_score, _) \<Rightarrow> score > best_score)
               then new_check_loop fl position rest (Some (score, span_index))
               else new_check_loop fl position rest best)"

definition new_check_is_max_context ::
  "(int \<Rightarrow> int \<Rightarrow> error + 'f::ord) \<Rightarrow> 'a doc_span_scheme list \<Rightarrow> int \<Rightarrow> int \<Rightarrow> error + bool" where
  "new_check_is_max_context fl doc_spans cur_span_index position =
     (case new_check_loop fl position (enumerate 0 doc_spans) None of
        Inl e \<Rightarrow> Inl e
      | Inr None \<Rightarrow> Inr False
      | Inr (Some (best_score, best_span_index)) \<Rightarrow> Inr (cur_span_index = int best_span_index))"

text \<open>
  The words of the specification: a window covers a position when
  \<open>window.start <= position <= window.start + window.length - 1\<close>, and the score of a
  window for a position is
  \<open>min(position - start, start + length - 1 - position) + 0.01 * length\<close>: as the code
  evaluates it (\<open>window_score\<close>, for the evaluation \<open>fl\<close>), and as the number that the
  formula denotes (\<open>exact_window_score\<close>).
\<close>

definition covers :: "'a doc_span_scheme \<Rightarrow> int \<Rightarrow> bool" where
  "covers w position \<longleftrightarrow> start w \<le> position \<and> position \<le> start w + length' w - 1"

definition window_score ::
  "(int \<Rightarrow> int \<Rightarrow> error + 'f) \<Rightarrow> 'a doc_span_scheme \<Rightarrow> int \<Rightarrow> error + 'f" where
  "window_score fl w position =
     fl (min (position - start w) (start w + length' w - 1 - position)) (length' w)"

definition exact_window_score :: "'a doc_span_scheme \<Rightarrow> int \<Rightarrow> rat" where
  "exact_window_score w position =
     of_int (min (position - start w) (start w + length' w - 1 - position))
       + 1 / 100 * of_int (length' w)"

text \<open>The same data read as attributes and as dictionary keys.\<close>

definition same_data :: "DocSpan \<Rightarrow> 'a doc_span_scheme \<Rightarrow> bool" where
  "same_data obj dict \<longleftrightarrow>
     DocSpan.start obj = start dict \<and> DocSpan.length' obj = length' dict"

text \<open>
  One pass of the loop body, as the change it makes to the pair of \<open>best_score\<close> and
  \<open>best_span_index\<close> (used to reason about the loop).
\<close>

definition step_best ::
  "(int \<Rightarrow> int \<Rightarrow> error + 'f::ord) \<Rightarrow> int \<Rightarrow> nat \<Rightarrow> 'a doc_span_scheme \<Rightarrow> ('f \<times> nat) option
    \<Rightarrow> error + ('f \<times> nat) option" where
  "step_best fl position span_index d best =
     (if covers d position then
        (case window_score fl d position of
           Inl e \<Rightarrow> Inl e
         | Inr score \<Rightarrow>
             if (case best of None \<Rightarrow> True | Some (bs, _) \<Rightarrow> score > bs)
             then Inr (Some (score, span_index)) else Inr best)
      else Inr best)"
section \<open>Examples: \<open>AlibabaExample\<close> and \<open>AlibabaProcessor._create_examples\<close>\<close>

text \<open>
  The raw dataset, as \<open>json.load\<close> returns it: entries with a title and paragraphs,
  paragraphs with a context and questions, questions with an id, a question text
  (\<open>None\<close> for a JSON \<open>null\<close>), two flags and a list of answers. The fields \<open>id'\<close>,
  \<open>text'\<close> and \<open>context'\<close> are the keys \<open>id\<close>, \<open>text\<close> and \<open>context\<close>.
\<close>

record answer =
  text' :: string
  answer_start :: int

record qa =
  id' :: int
  question :: "string option"
  is_challenge :: bool
  is_impossible :: bool
  answers :: "answer list"

record json_paragraph =
  context' :: string
  qas :: "qa list"

record entry =
  title :: string
  paragraphs :: "json_paragraph list"

record AlibabaExample =
  qas_id :: int
  question_text :: "string option"
  context_text :: string
  answer_text :: "string option"
  title :: string
  is_impossible :: bool
  is_challenge :: bool
  answers :: "answer list"
  start_position :: int
  end_position :: int

text \<open>Python's truth value of a string that may be \<open>None\<close>: false for \<open>None\<close> and for \<open>""\<close>.\<close>

fun truthy :: "string option \<Rightarrow> bool" where
  "truthy None = False"
| "truthy (Some s) = (s \<noteq> [])"

text \<open>
  \<open>AlibabaExample.__init__\<close>. With an answer text and no start character,
  \<open>start_position_character + len(self.answer_text)\<close> adds to \<open>None\<close> and raises
  \<open>TypeError\<close>. A primed name is the parameter of that name.
\<close>

definition AlibabaExample_init ::
  "int \<Rightarrow> string option \<Rightarrow> string \<Rightarrow> string option \<Rightarrow> int option \<Rightarrow> string \<Rightarrow> answer list
    \<Rightarrow> bool \<Rightarrow> bool \<Rightarrow> error + AlibabaExample" where
  "AlibabaExample_init qas_id' question_text' context_text' answer_text'
      start_position_character title' answers' is_impossible' is_challenge' =
     (if \<not> is_impossible' \<and> truthy answer_text' then
        (case (start_position_character, answer_text') of
           (Some c, Some a) \<Rightarrow>
             Inr \<lparr>AlibabaExample.qas_id = qas_id', question_text = question_text',
                  context_text = context_text', answer_text = answer_text', title = title',
                  is_impossible = is_impossible', is_challenge = is_challenge',
                  answers = answers',
                  start_position = c, end_position = c + int (length a) - 1\<rparr>
         | _ \<Rightarrow> Inl TypeError)
      else
        Inr \<lparr>AlibabaExample.qas_id = qas_id', question_text = question_text',
             context_text = context_text', answer_text = answer_text', title = title',
             is_impossible = is_impossible', is_challenge = is_challenge',
             answers = answers',
             start_position = 0, end_position = 0\<rparr>)"

text \<open>
  The part of the body of \<open>_create_examples\<close> that reads one question and builds its
  example. In training mode a possible question reads \<open>qa["answers"][0]\<close>, which raises
  \<open>IndexError\<close> on an empty list.
\<close>

definition example_of :: "bool \<Rightarrow> string \<Rightarrow> string \<Rightarrow> qa \<Rightarrow> error + AlibabaExample" where
  "example_of is_training title' context_text' q =
     (if \<not> qa.is_impossible q then
        (if is_training then
           (case qa.answers q of
              [] \<Rightarrow> Inl IndexError
            | answer # _ \<Rightarrow>
                AlibabaExample_init (id' q) (question q) context_text' (Some (text' answer))
                  (Some (answer_start answer)) title' [] (qa.is_impossible q) (qa.is_challenge q))
         else
           AlibabaExample_init (id' q) (question q) context_text' None None title' (qa.answers q)
             (qa.is_impossible q) (qa.is_challenge q))
      else
        AlibabaExample_init (id' q) (question q) context_text' None None title' []
          (qa.is_impossible q) (qa.is_challenge q))"

text \<open>
  The local variables that the loops of \<open>_create_examples\<close> update. The function returns
  \<open>examples\<close>; \<open>invalid_examples\<close> and the three maxima are only logged.
\<close>

record create_state =
  examples :: "AlibabaExample list"
  invalid_examples :: "int list"
  max_context_len :: int
  max_question_len :: int
  max_answer_len :: int

text \<open>
  The \<open>if\<close>/\<open>elif\<close>/\<open>else\<close> on one example. \<open>len\<close> of \<open>None\<close> raises \<open>TypeError\<close> and
  \<open>max\<close> of an empty list raises \<open>ValueError\<close>.
\<close>

definition classify :: "bool \<Rightarrow> create_state \<Rightarrow> AlibabaExample \<Rightarrow> error + create_state" where
  "classify is_training st example =
     (if \<not> truthy (question_text example) then
        Inr (st\<lparr>invalid_examples := invalid_examples st @ [qas_id example]\<rparr>)
      else if is_training \<and> \<not> is_impossible example
          \<and> Some (py_slice (context_text example) (start_position example)
                     (end_position example + 1)) \<noteq> answer_text example then
        Inr (st\<lparr>invalid_examples := invalid_examples st @ [qas_id example]\<rparr>)
      else
        (case question_text example of
           None \<Rightarrow> Inl TypeError
         | Some qt \<Rightarrow>
            let st1 = st\<lparr>examples := examples st @ [example],
                       max_context_len :=
                         max (max_context_len st) (int (length (context_text example))),
                       max_question_len := max (max_question_len st) (int (length qt))\<rparr>
            in if \<not> is_impossible example then
                 (if is_training then
                    (case answer_text example of
                       None \<Rightarrow> Inl TypeError
                     | Some a \<Rightarrow>
                         Inr (st1\<lparr>max_answer_len := max (max_answer_len st1) (int (length a))\<rparr>))
                  else
                    (case answers example of
                       [] \<Rightarrow> Inl ValueError
                     | x # xs \<Rightarrow>
                         Inr (st1\<lparr>max_answer_len :=
                           max (max_answer_len st1)
                             (Max (set (map (\<lambda>answer. int (length (text' answer))) (x # xs))))\<rparr>)))
               else Inr st1))"

text \<open>The three nested loops; an exception ends them all.\<close>

fun qa_loop ::
  "bool \<Rightarrow> string \<Rightarrow> string \<Rightarrow> create_state \<Rightarrow> qa list \<Rightarrow> error + create_state" where
  "qa_loop is_training title' context_text' st [] = Inr st"
| "qa_loop is_training title' context_text' st (q # rest) =
     (case example_of is_training title' context_text' q of
        Inl e \<Rightarrow> Inl e
      | Inr example \<Rightarrow>
          (case classify is_training st example of
             Inl e \<Rightarrow> Inl e
           | Inr st' \<Rightarrow> qa_loop is_training title' context_text' st' rest))"

fun paragraph_loop :: "bool \<Rightarrow> string \<Rightarrow> create_state \<Rightarrow> json_paragraph list \<Rightarrow> error + create_state" where
  "paragraph_loop is_training title' st [] = Inr st"
| "paragraph_loop is_training title' st (p # rest) =
     (case qa_loop is_training title' (context' p) st (qas p) of
        Inl e \<Rightarrow> Inl e
      | Inr st' \<Rightarrow> paragraph_loop is_training title' st' rest)"

fun entry_loop :: "bool \<Rightarrow> create_state \<Rightarrow> entry list \<Rightarrow> error + create_state" where
  "entry_loop is_training st [] = Inr st"
| "entry_loop is_training st (e # rest) =
     (case paragraph_loop is_training (entry.title e) st (paragraphs e) of
        Inl e \<Rightarrow> Inl e
      | Inr st' \<Rightarrow> entry_loop is_training st' rest)"

text \<open>
  \<open>_create_examples\<close>. The result is the pair of the returned list \<open>examples\<close> and of the
  list \<open>invalid_examples\<close> as it stands when the function returns.
\<close>

definition create_examples ::
  "entry list \<Rightarrow> string \<Rightarrow> error + (AlibabaExample list \<times> int list)" where
  "create_examples input_data set_type =
     (let is_training = (set_type = ''train'') in
      case entry_loop is_training
             \<lparr>examples = [], invalid_examples = [], max_context_len = 0,
              max_question_len = 0, max_answer_len = 0\<rparr> input_data of
        Inl e \<Rightarrow> Inl e
      | Inr st \<Rightarrow> Inr (examples st, invalid_examples st))"






text \<open>
  A dataset whose first question has an empty text, is not marked impossible and has no
  answer; its second question is the third of \<open>sample_dataset\<close>.
\<close>

definition unanswered_dataset :: "entry list" where
  "unanswered_dataset =
     [\<lparr>entry.title = ''fox'',
       paragraphs =
         [\<lparr>context' = ''The quick brown fox jumps.'',
           qas =
             [\<lparr>id' = 4, question = Some [], is_challenge = False, is_impossible = False,
               answers = []\<rparr>,
              \<lparr>id' = 3, question = Some ''Who?'', is_challenge = False, is_impossible = False,
               answers = [\<lparr>text' = ''brown fox'', answer_start = 10\<rparr>]\<rparr>]\<rparr>]\<rparr>]"
section \<open>The tokenizer\<close>

text \<open>
  The tokenizer is not part of \<open>dataset.py\<close>: it is the global \<open>tokenizer\<close> that
  \<open>convert_example_to_features_init\<close> sets, and the functions below take it as their
  parameter \<open>tok\<close>. The record holds what the code calls and reads of it.
  \<open>encode tok text max_length\<close> is
  \<open>tokenizer.encode(text, add_special_tokens=False, truncation=True, max_length=...)\<close>,
  and \<open>encode_plus tok query pair max_length stride\<close> is the call of \<open>encode_plus\<close> in the
  slicing loop, whose other arguments are constants. \<open>type_name\<close> is
  \<open>str(type(tokenizer))\<close>. The second sequence given to \<open>encode_plus\<close> is the list of
  token strings first and a list of overflowing token ids afterwards.
\<close>

datatype pair_input = Tokens "string list" | Ids "int list"

fun pair_len :: "pair_input \<Rightarrow> nat" where
  "pair_len (Tokens ts) = length ts"
| "pair_len (Ids ids) = length ids"

text \<open>
  The dictionary that \<open>encode_plus\<close> returns; \<open>overflowing_tokens\<close> is \<open>None\<close> when the
  key is absent.
\<close>

record BatchEncoding =
  input_ids :: "int list"
  attention_mask :: "int list"
  token_type_ids :: "int list"
  overflowing_tokens :: "int list option"

record tokenizer =
  tokenize :: "string \<Rightarrow> string list"
  encode :: "string \<Rightarrow> int \<Rightarrow> int list"
  encode_plus :: "int list \<Rightarrow> pair_input \<Rightarrow> int \<Rightarrow> int \<Rightarrow> BatchEncoding"
  convert_ids_to_tokens :: "int list \<Rightarrow> string list"
  get_special_tokens_mask :: "int list \<Rightarrow> int list"
  max_len :: int
  max_len_single_sentence :: int
  max_len_sentences_pair :: int
  pad_token_id :: int
  cls_token_id :: int
  padding_side :: string
  type_name :: string

text \<open>\<open>pat in s\<close> for two strings.\<close>

fun contains :: "string \<Rightarrow> string \<Rightarrow> bool" where
  "contains pat [] = (pat = [])"
| "contains pat (c # cs) = (take (length pat) (c # cs) = pat \<or> contains pat cs)"

definition sequence_added_tokens :: "tokenizer \<Rightarrow> int" where
  "sequence_added_tokens tok =
     (if contains ''roberta'' (type_name tok) \<or> contains ''camembert'' (type_name tok)
      then max_len tok - max_len_single_sentence tok + 1
      else max_len tok - max_len_single_sentence tok)"

definition sequence_pair_added_tokens :: "tokenizer \<Rightarrow> int" where
  "sequence_pair_added_tokens tok = max_len tok - max_len_sentences_pair tok"

section \<open>The window slicer\<close>

text \<open>
  A window is the dictionary \<open>encoded_dict\<close> with the keys the loop adds to it: a record
  that extends \<open>doc_span\<close> (the keys \<open>start\<close> and \<open>length\<close>) by the keys of the encoding and
  by the others. The two dictionaries \<open>token_to_orig_map\<close> and \<open>token_is_max_context\<close> are
  maps from local indices.
\<close>

record span = doc_span +
  input_ids :: "int list"
  attention_mask :: "int list"
  token_type_ids :: "int list"
  overflowing_tokens :: "int list option"
  paragraph_len :: int
  tokens :: "string list"
  token_to_orig_map :: "int \<rightharpoonup> int"
  truncated_query_with_special_tokens_length :: int
  token_is_max_context :: "int \<rightharpoonup> bool"

text \<open>
  The body of the \<open>while\<close> loop up to \<open>spans.append(encoded_dict)\<close>: the window built when
  \<open>spans\<close> holds the windows so far and \<open>span_doc_tokens\<close> is what remains to encode.
\<close>

definition make_span ::
  "tokenizer \<Rightarrow> string list \<Rightarrow> int list \<Rightarrow> int \<Rightarrow> int \<Rightarrow> span list \<Rightarrow> pair_input \<Rightarrow> span" where
  "make_span tok doc_tokens truncated_query max_seq_length doc_stride spans span_doc_tokens =
     (let encoded_dict = encode_plus tok truncated_query span_doc_tokens max_seq_length
            (max_seq_length - doc_stride - int (length truncated_query)
               - sequence_pair_added_tokens tok);
          paragraph_len = min (int (length doc_tokens) - int (length spans) * doc_stride)
            (max_seq_length - int (length truncated_query) - sequence_pair_added_tokens tok);
          non_padded_ids =
            (if pad_token_id tok \<in> set (BatchEncoding.input_ids encoded_dict)
             then takeWhile (\<lambda>i. i \<noteq> pad_token_id tok) (BatchEncoding.input_ids encoded_dict)
             else BatchEncoding.input_ids encoded_dict);
          tokens = convert_ids_to_tokens tok non_padded_ids;
          token_to_orig_map =
            fold (\<lambda>i m. m(int (length truncated_query) + sequence_added_tokens tok + int i
                           \<mapsto> int (length spans) * doc_stride + int i))
              [0..<nat paragraph_len] Map.empty
      in \<lparr>doc_span.start = int (length spans) * doc_stride,
          length' = paragraph_len,
          input_ids = BatchEncoding.input_ids encoded_dict,
          attention_mask = BatchEncoding.attention_mask encoded_dict,
          token_type_ids = BatchEncoding.token_type_ids encoded_dict,
          overflowing_tokens = BatchEncoding.overflowing_tokens encoded_dict,
          paragraph_len = paragraph_len,
          tokens = tokens,
          token_to_orig_map = token_to_orig_map,
          truncated_query_with_special_tokens_length =
            int (length truncated_query) + sequence_added_tokens tok,
          token_is_max_context = Map.empty\<rparr>)"

text \<open>
  The loop \<open>while len(spans) * doc_stride < len(doc_tokens)\<close> with its \<open>break\<close>. It need not
  end (a stride that is not positive, with a tokenizer that always reports overflow):
  the result \<open>None\<close> stands for a loop that does not end.
\<close>

partial_function (option) slice_loop ::
  "tokenizer \<Rightarrow> string list \<Rightarrow> int list \<Rightarrow> int \<Rightarrow> int \<Rightarrow> span list \<Rightarrow> pair_input
    \<Rightarrow> span list option" where
  "slice_loop tok doc_tokens truncated_query max_seq_length doc_stride spans span_doc_tokens =
     (if int (length spans) * doc_stride < int (length doc_tokens) then
        (let sp = make_span tok doc_tokens truncated_query max_seq_length doc_stride spans
                    span_doc_tokens
         in case span.overflowing_tokens sp of
              None \<Rightarrow> Some (spans @ [sp])
            | Some overflow \<Rightarrow>
                if length overflow = 0 then Some (spans @ [sp])
                else slice_loop tok doc_tokens truncated_query max_seq_length doc_stride
                       (spans @ [sp]) (Ids overflow))
      else Some spans)"

declare slice_loop.simps [code]

section \<open>Tagging the tokens with their max-context window\<close>

text \<open>
  A \<open>for\<close> loop over the list \<open>xs\<close> whose body may raise: the body \<open>f x\<close> changes the state,
  and the first exception ends the loop.
\<close>

fun for_loop :: "('a \<Rightarrow> 's \<Rightarrow> error + 's) \<Rightarrow> 'a list \<Rightarrow> 's \<Rightarrow> error + 's" where
  "for_loop f [] s = Inr s"
| "for_loop f (x # xs) s = (case f x s of Inl e \<Rightarrow> Inl e | Inr s' \<Rightarrow> for_loop f xs s')"

text \<open>
  The two nested loops over \<open>doc_span_index\<close> and \<open>j\<close>, which store into the dictionary
  \<open>token_is_max_context\<close> of the window \<open>spans[doc_span_index]\<close>.
\<close>

definition tag_token ::
  "(int \<Rightarrow> int \<Rightarrow> error + 'f::ord) \<Rightarrow> tokenizer \<Rightarrow> int \<Rightarrow> nat \<Rightarrow> nat \<Rightarrow> span list
    \<Rightarrow> error + span list" where
  "tag_token fl tok doc_stride doc_span_index j spans =
     (case new_check_is_max_context fl spans (int doc_span_index)
             (int doc_span_index * doc_stride + int j) of
        Inl e \<Rightarrow> Inl e
      | Inr is_max_context \<Rightarrow>
          (let index = (if padding_side tok = ''left'' then int j
                        else truncated_query_with_special_tokens_length (spans ! doc_span_index)
                               + int j)
           in Inr (spans[doc_span_index := (spans ! doc_span_index)
                \<lparr>token_is_max_context :=
                   (token_is_max_context (spans ! doc_span_index))(index \<mapsto> is_max_context)\<rparr>])))"

definition tag_span ::
  "(int \<Rightarrow> int \<Rightarrow> error + 'f::ord) \<Rightarrow> tokenizer \<Rightarrow> int \<Rightarrow> nat \<Rightarrow> span list
    \<Rightarrow> error + span list" where
  "tag_span fl tok doc_stride doc_span_index spans =
     for_loop (tag_token fl tok doc_stride doc_span_index)
       [0..<nat (paragraph_len (spans ! doc_span_index))] spans"

definition tag_spans ::
  "(int \<Rightarrow> int \<Rightarrow> error + 'f::ord) \<Rightarrow> tokenizer \<Rightarrow> int \<Rightarrow> span list \<Rightarrow> error + span list" where
  "tag_spans fl tok doc_stride spans =
     for_loop (tag_span fl tok doc_stride) [0..<length spans] spans"

section \<open>The feature assembler\<close>

text \<open>\<open>xs.index(x)\<close>: the first position of \<open>x\<close>, or \<open>ValueError\<close>.\<close>

definition index_of :: "'a list \<Rightarrow> 'a \<Rightarrow> error + nat" where
  "index_of xs x =
     (if x \<in> set xs then Inr (length (takeWhile (\<lambda>y. y \<noteq> x) xs)) else Inl ValueError)"

text \<open>
  The array operations on \<open>p_mask\<close>: \<open>np.ones_like\<close>, the slice assignment
  \<open>p_mask[k:] = v\<close>, the index arrays of \<open>np.where(a == v)\<close> and of \<open>nonzero()\<close>, the
  assignment \<open>p_mask[indices] = v\<close> through an index array and the assignment
  \<open>p_mask[i] = v\<close>. An index beyond the array raises \<open>IndexError\<close>.
\<close>

definition ones_like :: "int list \<Rightarrow> int list" where
  "ones_like xs = replicate (length xs) 1"

definition assign_from :: "int list \<Rightarrow> int \<Rightarrow> int \<Rightarrow> int list" where
  "assign_from p k v =
     take (slice_bound (length p) k) p @ replicate (length p - slice_bound (length p) k) v"

definition where_eq :: "int list \<Rightarrow> int \<Rightarrow> nat list" where
  "where_eq xs v = filter (\<lambda>i. xs ! i = v) [0..<length xs]"

definition nonzero :: "int list \<Rightarrow> nat list" where
  "nonzero xs = filter (\<lambda>i. xs ! i \<noteq> 0) [0..<length xs]"

definition assign_indices :: "int list \<Rightarrow> nat list \<Rightarrow> int \<Rightarrow> error + int list" where
  "assign_indices p indices v =
     (if list_all (\<lambda>i. i < length p) indices then Inr (fold (\<lambda>i q. q[i := v]) indices p)
      else Inl IndexError)"

definition assign_index :: "int list \<Rightarrow> nat \<Rightarrow> int \<Rightarrow> error + int list" where
  "assign_index p i v = (if i < length p then Inr (p[i := v]) else Inl IndexError)"

definition make_p_mask :: "tokenizer \<Rightarrow> int list \<Rightarrow> span \<Rightarrow> nat \<Rightarrow> error + int list" where
  "make_p_mask tok truncated_query sp cls_index =
     (let p_mask0 = ones_like (span.token_type_ids sp);
          p_mask1 = assign_from p_mask0
            (int (length truncated_query) + sequence_added_tokens tok) 0;
          pad_token_indices = where_eq (span.input_ids sp) (pad_token_id tok);
          special_token_indices = nonzero (get_special_tokens_mask tok (span.input_ids sp))
      in case assign_indices p_mask1 pad_token_indices 1 of
           Inl e \<Rightarrow> Inl e
         | Inr p_mask2 \<Rightarrow>
             (case assign_indices p_mask2 special_token_indices 1 of
                Inl e \<Rightarrow> Inl e
              | Inr p_mask3 \<Rightarrow> assign_index p_mask3 cls_index 0))"

record AlibabaFeatures =
  input_ids :: "int list"
  attention_mask :: "int list"
  token_type_ids :: "int list"
  cls_index :: int
  p_mask :: "int list"
  example_index :: int
  unique_id :: int
  paragraph_len :: int
  token_is_max_context :: "int \<rightharpoonup> bool"
  tokens :: "string list"
  token_to_orig_map :: "int \<rightharpoonup> int"
  start_position :: int
  end_position :: int
  is_impossible :: bool
  qas_id :: int

text \<open>
  The body of \<open>for span in spans\<close>: one feature for the window \<open>sp\<close>. \<open>tok_positions\<close> is
  the pair of \<open>tok_start_position\<close> and \<open>tok_end_position\<close>, which are assigned only in
  training mode and for a possible example (\<open>None\<close> when they are not; reading them then
  would raise \<open>NameError\<close>).
\<close>

definition make_feature ::
  "tokenizer \<Rightarrow> AlibabaExample \<Rightarrow> bool \<Rightarrow> int list \<Rightarrow> (int \<times> int) option \<Rightarrow> span
    \<Rightarrow> error + AlibabaFeatures" where
  "make_feature tok example is_training truncated_query tok_positions sp =
     (case index_of (span.input_ids sp) (cls_token_id tok) of
        Inl e \<Rightarrow> Inl e
      | Inr cls_index' \<Rightarrow>
     (case make_p_mask tok truncated_query sp cls_index' of
        Inl e \<Rightarrow> Inl e
      | Inr p_mask' \<Rightarrow>
     (let span_is_impossible = AlibabaExample.is_impossible example;
          feature = (\<lambda>start_position end_position span_is_impossible.
            \<lparr>AlibabaFeatures.input_ids = span.input_ids sp,
             attention_mask = span.attention_mask sp,
             token_type_ids = span.token_type_ids sp,
             cls_index = int cls_index',
             p_mask = p_mask',
             example_index = 0,
             unique_id = 0,
             paragraph_len = span.paragraph_len sp,
             token_is_max_context = span.token_is_max_context sp,
             tokens = span.tokens sp,
             token_to_orig_map = span.token_to_orig_map sp,
             start_position = start_position,
             end_position = end_position,
             is_impossible = span_is_impossible,
             qas_id = AlibabaExample.qas_id example\<rparr>)
      in if is_training \<and> \<not> span_is_impossible then
           (case tok_positions of
              None \<Rightarrow> Inl NameError
            | Some (tok_start_position, tok_end_position) \<Rightarrow>
                (let doc_start = start sp;
                     doc_end = start sp + length' sp - 1;
                     out_of_span = \<not> (tok_start_position \<ge> doc_start \<and> tok_end_position \<le> doc_end)
                 in if out_of_span then Inr (feature (int cls_index') (int cls_index') True)
                    else
                      (let doc_offset = int (length truncated_query) + sequence_added_tokens tok
                       in Inr (feature (tok_start_position - doc_start + doc_offset)
                                 (tok_end_position - doc_start + doc_offset)
                                 span_is_impossible))))
         else Inr (feature 0 0 span_is_impossible))))"

fun features_loop ::
  "tokenizer \<Rightarrow> AlibabaExample \<Rightarrow> bool \<Rightarrow> int list \<Rightarrow> (int \<times> int) option \<Rightarrow> span list
    \<Rightarrow> error + AlibabaFeatures list" where
  "features_loop tok example is_training truncated_query tok_positions [] = Inr []"
| "features_loop tok example is_training truncated_query tok_positions (sp # rest) =
     (case make_feature tok example is_training truncated_query tok_positions sp of
        Inl e \<Rightarrow> Inl e
      | Inr f \<Rightarrow>
          (case features_loop tok example is_training truncated_query tok_positions rest of
             Inl e \<Rightarrow> Inl e
           | Inr fs \<Rightarrow> Inr (f # fs)))"

text \<open>
  The gold token span, computed once per example in training mode for a possible
  example. The tokenizer is given strings: on an answer text or a question text that is
  \<open>None\<close> the call is reported as \<open>TypeError\<close>.
\<close>

definition gold_span ::
  "tokenizer \<Rightarrow> AlibabaExample \<Rightarrow> string list \<Rightarrow> bool \<Rightarrow> error + (int \<times> int) option" where
  "gold_span tok example doc_tokens is_training =
     (if is_training \<and> \<not> AlibabaExample.is_impossible example then
        (case answer_text example of
           None \<Rightarrow> Inl TypeError
         | Some a \<Rightarrow>
             Inr (Some (improve_answer_span doc_tokens (tokenize tok a)
                          (AlibabaExample.start_position example)
                          (AlibabaExample.end_position example))))
      else Inr None)"

text \<open>
  \<open>convert_example_to_features\<close>. The outer \<open>None\<close> is a slicing loop that does not end,
  \<open>Some (Inl e)\<close> an exception and \<open>Some (Inr features)\<close> the returned list.
\<close>

definition convert_example_to_features ::
  "(int \<Rightarrow> int \<Rightarrow> error + 'f::ord) \<Rightarrow> tokenizer \<Rightarrow> AlibabaExample \<Rightarrow> int \<Rightarrow> int \<Rightarrow> int \<Rightarrow> bool
    \<Rightarrow> (error + AlibabaFeatures list) option" where
  "convert_example_to_features fl tok example max_seq_length doc_stride max_query_length
      is_training =
     (let doc_tokens = tokenize tok (context_text example)
      in case gold_span tok example doc_tokens is_training of
           Inl e \<Rightarrow> Some (Inl e)
         | Inr tok_positions \<Rightarrow>
             (case question_text example of
                None \<Rightarrow> Some (Inl TypeError)
              | Some q \<Rightarrow>
                  (let truncated_query = encode tok q max_query_length
                   in case slice_loop tok doc_tokens truncated_query max_seq_length doc_stride []
                             (Tokens doc_tokens) of
                        None \<Rightarrow> None
                      | Some spans \<Rightarrow>
                          (case tag_spans fl tok doc_stride spans of
                             Inl e \<Rightarrow> Some (Inl e)
                           | Inr tagged \<Rightarrow>
                               Some (features_loop tok example is_training truncated_query
                                       tok_positions tagged)))))"

section \<open>The batch driver \<open>convert_examples_to_features\<close>\<close>

text \<open>
  The pool maps \<open>convert_example_to_features\<close> over the examples and hands the results
  back in the order of the examples; the first example that raises, or whose loop does
  not end, decides the outcome.
\<close>

fun convert_all ::
  "(int \<Rightarrow> int \<Rightarrow> error + 'f::ord) \<Rightarrow> tokenizer \<Rightarrow> int \<Rightarrow> int \<Rightarrow> int \<Rightarrow> bool \<Rightarrow> AlibabaExample list
    \<Rightarrow> (error + AlibabaFeatures list list) option" where
  "convert_all fl tok max_seq_length doc_stride max_query_length is_training [] = Some (Inr [])"
| "convert_all fl tok max_seq_length doc_stride max_query_length is_training (example # rest) =
     (case convert_example_to_features fl tok example max_seq_length doc_stride
             max_query_length is_training of
        None \<Rightarrow> None
      | Some (Inl e) \<Rightarrow> Some (Inl e)
      | Some (Inr fs) \<Rightarrow>
          (case convert_all fl tok max_seq_length doc_stride max_query_length is_training rest of
             None \<Rightarrow> None
           | Some (Inl e) \<Rightarrow> Some (Inl e)
           | Some (Inr fss) \<Rightarrow> Some (Inr (fs # fss))))"

text \<open>
  The inner loop \<open>for example_feature in example_features\<close>: it returns \<open>new_features\<close> and
  \<open>unique_id\<close>.
\<close>

fun number_example ::
  "AlibabaFeatures list \<Rightarrow> int \<Rightarrow> int \<Rightarrow> AlibabaFeatures list \<Rightarrow> AlibabaFeatures list \<times> int" where
  "number_example [] unique_id' example_index' new_features = (new_features, unique_id')"
| "number_example (example_feature # rest) unique_id' example_index' new_features =
     number_example rest (unique_id' + 1) example_index'
       (new_features @ [example_feature\<lparr>example_index := example_index',
                                        unique_id := unique_id'\<rparr>])"

text \<open>The outer loop \<open>for example_features in features\<close>, with its \<open>continue\<close>.\<close>

fun number_features ::
  "AlibabaFeatures list list \<Rightarrow> int \<Rightarrow> int \<Rightarrow> AlibabaFeatures list \<Rightarrow> AlibabaFeatures list" where
  "number_features [] unique_id' example_index' new_features = new_features"
| "number_features (example_features # rest) unique_id' example_index' new_features =
     (case example_features of
        [] \<Rightarrow> number_features rest unique_id' example_index' new_features
      | _ # _ \<Rightarrow>
          (case number_example example_features unique_id' example_index' new_features of
             (new_features', unique_id'') \<Rightarrow>
               number_features rest unique_id'' (example_index' + 1) new_features'))"

text \<open>
  \<open>convert_examples_to_features\<close> with \<open>return_dataset=False\<close>: the list of features. The
  number of threads and the progress bars do not change it.
\<close>

definition convert_examples_to_features ::
  "(int \<Rightarrow> int \<Rightarrow> error + 'f::ord) \<Rightarrow> AlibabaExample list \<Rightarrow> tokenizer \<Rightarrow> int \<Rightarrow> int \<Rightarrow> int \<Rightarrow> bool
    \<Rightarrow> (error + AlibabaFeatures list) option" where
  "convert_examples_to_features fl examples' tok max_seq_length doc_stride max_query_length
      is_training =
     (case convert_all fl tok max_seq_length doc_stride max_query_length is_training
             examples' of
        None \<Rightarrow> None
      | Some (Inl e) \<Rightarrow> Some (Inl e)
      | Some (Inr features) \<Rightarrow> Some (Inr (number_features features 1000000000 0 [])))"

section \<open>What the slicer expects of the tokenizer\<close>

text \<open>
  Modelled from the spec: the tokenizer is a collaborator outside \<open>dataset.py\<close>, and the
  specification describes the one the slicer is written for as performing simple
  truncation: the tokens beyond a window's budget, with the overlap the stride asks
  for, are reported as overflow and become the input of the next window, and a window
  that takes all that remains reports no overflow. In numbers: a second sequence of at
  most \<open>budget\<close> tokens leaves no overflow (the key absent, or an empty list), and a longer
  one leaves all but its first \<open>doc_stride\<close> tokens.
\<close>

definition simple_truncation :: "tokenizer \<Rightarrow> int list \<Rightarrow> int \<Rightarrow> int \<Rightarrow> bool" where
  "simple_truncation tok truncated_query max_seq_length doc_stride \<longleftrightarrow>
     (\<forall>pair.
        let budget = max_seq_length - int (length truncated_query)
              - sequence_pair_added_tokens tok;
            ov = BatchEncoding.overflowing_tokens
              (encode_plus tok truncated_query pair max_seq_length
                 (max_seq_length - doc_stride - int (length truncated_query)
                    - sequence_pair_added_tokens tok))
        in if int (pair_len pair) \<le> budget then ov = None \<or> ov = Some []
           else \<exists>overflow. ov = Some overflow
                  \<and> int (length overflow) = int (pair_len pair) - doc_stride)"

section \<open>The mask \<open>p_mask\<close> in the words of the specification\<close>

text \<open>
  Setting the positions that satisfy \<open>P\<close> to \<open>v\<close>, and the four steps of the specification
  in their order: every position is set to 1; the positions of the context tokens are
  set to 0; the positions of padding tokens and of special tokens are set back to 1;
  the position of the classification token is set to 0. Which positions count as
  positions of context tokens is the parameter \<open>context_position\<close>.
\<close>

definition set_positions :: "(nat \<Rightarrow> bool) \<Rightarrow> int \<Rightarrow> int list \<Rightarrow> int list" where
  "set_positions P v xs = map (\<lambda>i. if P i then v else xs ! i) [0..<length xs]"

definition spec_p_mask :: "(nat \<Rightarrow> bool) \<Rightarrow> tokenizer \<Rightarrow> span \<Rightarrow> nat \<Rightarrow> int list" where
  "spec_p_mask context_position tok sp cls =
     set_positions (\<lambda>i. i = cls) 0
       (set_positions
          (\<lambda>i. i < length (get_special_tokens_mask tok (span.input_ids sp))
                \<and> get_special_tokens_mask tok (span.input_ids sp) ! i \<noteq> 0) 1
          (set_positions
             (\<lambda>i. i < length (span.input_ids sp) \<and> span.input_ids sp ! i = pad_token_id tok) 1
             (set_positions context_position 0
                (replicate (length (span.token_type_ids sp)) 1))))"

text \<open>
  The positions of the context tokens of a window, as the window's own
  \<open>token_to_orig_map\<close> has them: the \<open>paragraph_len\<close> positions from
  \<open>len(truncated_query) + sequence_added_tokens\<close> on.
\<close>

definition context_positions :: "tokenizer \<Rightarrow> int list \<Rightarrow> span \<Rightarrow> nat \<Rightarrow> bool" where
  "context_positions tok truncated_query sp i \<longleftrightarrow>
     int (length truncated_query) + sequence_added_tokens tok \<le> int i
     \<and> int i < int (length truncated_query) + sequence_added_tokens tok + span.paragraph_len sp"

text \<open>
  The positions that the slice assignment
  \<open>p_mask[len(truncated_query) + sequence_added_tokens:] = 0\<close> reaches: all from that
  bound to the end of the sequence.
\<close>

definition tail_positions :: "tokenizer \<Rightarrow> int list \<Rightarrow> span \<Rightarrow> nat \<Rightarrow> bool" where
  "tail_positions tok truncated_query sp i \<longleftrightarrow>
     slice_bound (length (span.token_type_ids sp))
       (int (length truncated_query) + sequence_added_tokens tok) \<le> i"

section \<open>A tokenizer and examples used as concrete inputs\<close>

text \<open>
  A small tokenizer in the manner of BERT, used below as a concrete input: a token is a
  character and its id the code of the character; the padding token has id 0, the
  classification token id 1 and the separator id 2. A pair is laid out as
  \<open>[CLS] query [SEP] context [SEP]\<close> and padded to \<open>max_length\<close> on the side \<open>side\<close>; the
  context is cut to what fits, and the overflow is what follows the cut together with
  the last \<open>stride\<close> tokens before it.
\<close>

definition sample_token_id :: "string \<Rightarrow> int" where
  "sample_token_id t = (case t of [] \<Rightarrow> 3 | c # _ \<Rightarrow> int (of_char c))"

definition sample_encode_plus ::
  "string \<Rightarrow> int list \<Rightarrow> pair_input \<Rightarrow> int \<Rightarrow> int \<Rightarrow> BatchEncoding" where
  "sample_encode_plus side query pair max_length stride =
     (let ids = (case pair of Tokens ts \<Rightarrow> map sample_token_id ts | Ids ids \<Rightarrow> ids);
          budget = nat (max_length - int (length query) - 3);
          window = take budget ids;
          overflow = (if length ids > budget then drop (nat (int budget - stride)) ids else []);
          content = [1] @ query @ [2] @ window @ [2];
          types = replicate (length query + 2) 0 @ replicate (length window + 1) 1;
          pads = replicate (nat max_length - length content) 0
      in if side = ''left''
         then \<lparr>BatchEncoding.input_ids = pads @ content,
               attention_mask = pads @ replicate (length content) 1,
               token_type_ids = pads @ types,
               overflowing_tokens = Some overflow\<rparr>
         else \<lparr>BatchEncoding.input_ids = content @ pads,
               attention_mask = replicate (length content) 1 @ pads,
               token_type_ids = types @ pads,
               overflowing_tokens = Some overflow\<rparr>)"

definition sample_tokenizer :: "string \<Rightarrow> tokenizer" where
  "sample_tokenizer side =
     \<lparr>tokenize = map (\<lambda>c. [c]),
      encode = (\<lambda>text max_length. take (nat max_length) (map (\<lambda>c. int (of_char c)) text)),
      encode_plus = sample_encode_plus side,
      convert_ids_to_tokens = map (\<lambda>i. [char_of i]),
      get_special_tokens_mask = map (\<lambda>i. if i = 0 \<or> i = 1 \<or> i = 2 then 1 else 0),
      max_len = 512,
      max_len_single_sentence = 510,
      max_len_sentences_pair = 509,
      pad_token_id = 0,
      cls_token_id = 1,
      padding_side = side,
      type_name = ''BertTokenizer''\<rparr>"

text \<open>
  Examples as \<open>_create_examples\<close> builds them in training mode: a question with no
  possible answer, a question about an empty context and a question whose answer
  \<open>"cd"\<close> starts at character 2 of the context \<open>"abcdefgh"\<close>.
\<close>

definition impossible_example :: AlibabaExample where
  "impossible_example =
     \<lparr>AlibabaExample.qas_id = 7, question_text = Some ''q'', context_text = ''ab'',
      answer_text = None, title = ''t'', is_impossible = True, is_challenge = False,
      answers = [], start_position = 0, end_position = 0\<rparr>"

definition empty_context_example :: AlibabaExample where
  "empty_context_example =
     \<lparr>AlibabaExample.qas_id = 8, question_text = Some ''q'', context_text = [],
      answer_text = None, title = ''t'', is_impossible = True, is_challenge = False,
      answers = [], start_position = 0, end_position = 0\<rparr>"

definition answered_example :: AlibabaExample where
  "answered_example =
     \<lparr>AlibabaExample.qas_id = 9, question_text = Some ''q'', context_text = ''abcdefgh'',
      answer_text = Some ''cd'', title = ''t'', is_impossible = False, is_challenge = False,
      answers = [], start_position = 2, end_position = 3\<rparr>"

section \<open>The order of the floats\<close>

text \<open>
  The comparison of floats is the comparison of the numbers they stand for. Two finite
  floats are compared after they are brought to their smaller exponent, which compares
  the numbers \<open>float_val\<close> (lemma \<open>float_le_iff\<close>).
\<close>

definition float_val :: "finite_float \<Rightarrow> rat" where
  "float_val x = of_int (fst x) * 2 powi snd x"

definition float_le :: "finite_float \<Rightarrow> finite_float \<Rightarrow> bool" where
  "float_le x y \<longleftrightarrow>
     fst x * 2 ^ nat (snd x - min (snd x) (snd y)) \<le> fst y * 2 ^ nat (snd y - min (snd x) (snd y))"

lemma float_val_aligned:
  assumes "k \<le> snd x"
  shows "(of_int (fst x * 2 ^ nat (snd x - k)) :: rat) = float_val x / 2 powi k"
proof -
  have a: "(2::rat) powi (snd x - k) = 2 ^ nat (snd x - k)"
    using assms by (simp add: power_int_def)
  have b: "(2::rat) powi (snd x - k) = 2 powi snd x / 2 powi k"
    by (simp add: power_int_diff)
  have "(of_int (fst x * 2 ^ nat (snd x - k)) :: rat) = of_int (fst x) * 2 powi (snd x - k)"
    by (simp only: a of_int_mult of_int_power of_int_numeral)
  also have "\<dots> = float_val x / 2 powi k"
    by (simp only: b float_val_def times_divide_eq_right)
  finally show ?thesis .
qed

lemma float_le_iff: "float_le x y \<longleftrightarrow> float_val x \<le> float_val y"
proof -
  let ?k = "min (snd x) (snd y)"
  have p: "\<not> (2::rat) powi ?k < 0" by (simp add: not_less)
  have "float_le x y \<longleftrightarrow>
      (of_int (fst x * 2 ^ nat (snd x - ?k)) :: rat) \<le> of_int (fst y * 2 ^ nat (snd y - ?k))"
    unfolding float_le_def by (simp only: of_int_le_iff)
  also have "\<dots> \<longleftrightarrow> float_val x / 2 powi ?k \<le> float_val y / 2 powi ?k"
    by (simp only: float_val_aligned [of ?k x] float_val_aligned [of ?k y] min.cobounded1
        min.cobounded2)
  also have "\<dots> \<longleftrightarrow> float_val x \<le> float_val y"
    by (simp only: divide_le_cancel p) simp
  finally show ?thesis .
qed

instantiation pyfloat :: preorder
begin

fun less_eq_pyfloat :: "pyfloat \<Rightarrow> pyfloat \<Rightarrow> bool" where
  "less_eq_pyfloat NegInf y = True"
| "less_eq_pyfloat (Fin x) NegInf = False"
| "less_eq_pyfloat (Fin x) (Fin y) = float_le x y"
| "less_eq_pyfloat (Fin x) PosInf = True"
| "less_eq_pyfloat PosInf NegInf = False"
| "less_eq_pyfloat PosInf (Fin y) = False"
| "less_eq_pyfloat PosInf PosInf = True"

definition less_pyfloat :: "pyfloat \<Rightarrow> pyfloat \<Rightarrow> bool" where
  "less_pyfloat x y \<longleftrightarrow> x \<le> y \<and> \<not> y \<le> x"

instance
proof
  fix x y z :: pyfloat
  show "x < y \<longleftrightarrow> x \<le> y \<and> \<not> y \<le> x" by (simp add: less_pyfloat_def)
  show "x \<le> x" by (cases x) (simp_all add: float_le_iff)
  show "x \<le> y \<Longrightarrow> y \<le> z \<Longrightarrow> x \<le> z"
    by (cases x; cases y; cases z) (simp_all add: float_le_iff)
qed

end

lemma pyfloat_total: "x \<le> y \<or> y \<le> x" for x y :: pyfloat
  by (cases x; cases y) (auto simp: float_le_iff)

section \<open>Properties of the span aligner\<close>

lemma scan_ends_None:
  "scan_ends d a s es = None \<longleftrightarrow> (\<forall>e \<in> set es. \<not> span_matches d a s e)"
  by (induction es) auto

lemma scan_ends_Some:
  "scan_ends d a s es = Some (s', e) \<Longrightarrow>
     s' = s \<and> e \<in> set es \<and> span_matches d a s e"
  by (induction es) (auto split: if_splits)

lemma scan_ends_largest:
  "scan_ends d a s es = Some (s, e) \<Longrightarrow> sorted_wrt (>) es \<Longrightarrow>
     e' \<in> set es \<Longrightarrow> span_matches d a s e' \<Longrightarrow> e' \<le> e"
proof (induction es)
  case Nil
  then show ?case by simp
next
  case (Cons x xs)
  show ?case
  proof (cases "span_matches d a s x")
    case True
    with Cons.prems(1) have "e = x" by simp
    with Cons.prems(2,3) show ?thesis by auto
  next
    case False
    with Cons.prems(3,4) have "e' \<in> set xs" by auto
    with Cons False show ?thesis by simp
  qed
qed

lemma scan_starts_None:
  "scan_starts d a ss = None \<longleftrightarrow>
     (\<forall>s \<in> set ss. scan_ends d a s (rev [s..<length d]) = None)"
  by (induction ss) (auto split: option.splits)

lemma scan_starts_Some:
  "scan_starts d a ss = Some (s, e) \<Longrightarrow> sorted_wrt (<) ss \<Longrightarrow>
     s \<in> set ss \<and> scan_ends d a s (rev [s..<length d]) = Some (s, e) \<and>
     (\<forall>s' \<in> set ss. s' < s \<longrightarrow> scan_ends d a s' (rev [s'..<length d]) = None)"
proof (induction ss)
  case Nil
  then show ?case by simp
next
  case (Cons x xs)
  show ?case
  proof (cases "scan_ends d a x (rev [x..<length d])")
    case None
    with Cons.prems have rest: "scan_starts d a xs = Some (s, e)" and srt: "sorted_wrt (<) xs"
      by simp_all
    from Cons.IH [OF rest srt] None show ?thesis by auto
  next
    case (Some r)
    with Cons.prems(1) have r: "r = (s, e)" by simp
    with Some scan_ends_Some [of d a x "rev [x..<length d]" s e] have "s = x" by simp
    with Some r Cons.prems(2) show ?thesis by auto
  qed
qed

text \<open>
  C2. A slice is a range of token indices \<open>s..e\<close> with \<open>s \<le> e < len(doc_tokens)\<close>, the
  ranges the two loops visit. If some slice of \<open>doc_tokens\<close> concatenates to the
  concatenation of \<open>answer_tokens\<close>, \<open>_improve_answer_span\<close> returns such a slice
  \<open>(s, e)\<close>, where \<open>s\<close> is the smallest start of any matching slice and \<open>e\<close> the
  largest matching end for that start; if no slice matches, it returns the pair
  \<open>(input_start, input_end)\<close> it was given.
\<close>

theorem improve_answer_span_first_match:
  "(if \<exists>s e. s \<le> e \<and> e < length doc_tokens \<and> span_matches doc_tokens answer_tokens s e
    then \<exists>s e. improve_answer_span doc_tokens answer_tokens input_start input_end = (int s, int e)
           \<and> s \<le> e \<and> e < length doc_tokens
           \<and> concat (slice doc_tokens s (e + 1)) = concat answer_tokens
           \<and> (\<forall>s' e'. s' \<le> e' \<and> e' < length doc_tokens
                 \<and> span_matches doc_tokens answer_tokens s' e' \<longrightarrow> s \<le> s')
           \<and> (\<forall>e'. s \<le> e' \<and> e' < length doc_tokens
                 \<and> span_matches doc_tokens answer_tokens s e' \<longrightarrow> e' \<le> e)
    else improve_answer_span doc_tokens answer_tokens input_start input_end
           = (input_start, input_end))"
proof (cases "\<exists>s e. s \<le> e \<and> e < length doc_tokens \<and> span_matches doc_tokens answer_tokens s e")
  case False
  then have "\<forall>s \<in> set [0..<length doc_tokens].
      scan_ends doc_tokens answer_tokens s (rev [s..<length doc_tokens]) = None"
    by (auto simp: scan_ends_None)
  then have "scan_starts doc_tokens answer_tokens [0..<length doc_tokens] = None"
    by (simp only: scan_starts_None)
  then have "improve_answer_span doc_tokens answer_tokens input_start input_end
      = (input_start, input_end)"
    by (simp add: improve_answer_span_def)
  with False show ?thesis by (simp only: if_False)
next
  case True
  then obtain s0 e0 where m0: "s0 \<le> e0" "e0 < length doc_tokens"
    "span_matches doc_tokens answer_tokens s0 e0" by blast
  then have some: "scan_ends doc_tokens answer_tokens s0 (rev [s0..<length doc_tokens]) \<noteq> None"
    by (auto simp: scan_ends_None)
  have mem: "s0 \<in> set [0..<length doc_tokens]" using m0 by simp
  have "scan_starts doc_tokens answer_tokens [0..<length doc_tokens] \<noteq> None"
  proof
    assume "scan_starts doc_tokens answer_tokens [0..<length doc_tokens] = None"
    then have "\<forall>s \<in> set [0..<length doc_tokens].
        scan_ends doc_tokens answer_tokens s (rev [s..<length doc_tokens]) = None"
      by (simp only: scan_starts_None)
    from bspec [OF this mem] some show False by simp
  qed
  then obtain s e where
    res: "scan_starts doc_tokens answer_tokens [0..<length doc_tokens] = Some (s, e)"
    by auto
  have srt: "sorted_wrt (<) [0..<length doc_tokens]" by simp
  from scan_starts_Some [OF res srt]
  have ends: "scan_ends doc_tokens answer_tokens s (rev [s..<length doc_tokens]) = Some (s, e)"
    and first: "\<forall>s' \<in> set [0..<length doc_tokens]. s' < s \<longrightarrow>
        scan_ends doc_tokens answer_tokens s' (rev [s'..<length doc_tokens]) = None"
    by simp_all
  from scan_ends_Some [OF ends]
  have e_in: "s \<le> e" "e < length doc_tokens" and e_ok: "span_matches doc_tokens answer_tokens s e"
    by simp_all
  have smallest: "s \<le> s'"
    if "s' \<le> e'" "e' < length doc_tokens" "span_matches doc_tokens answer_tokens s' e'" for s' e'
  proof (rule ccontr)
    assume "\<not> s \<le> s'"
    with first that(1,2)
    have "scan_ends doc_tokens answer_tokens s' (rev [s'..<length doc_tokens]) = None" by simp
    with that show False by (auto simp: scan_ends_None)
  qed
  have largest: "e' \<le> e"
    if "s \<le> e'" "e' < length doc_tokens" "span_matches doc_tokens answer_tokens s e'" for e'
  proof -
    have "sorted_wrt (>) (rev [s..<length doc_tokens])"
      by (simp add: sorted_wrt_rev)
    moreover have "e' \<in> set (rev [s..<length doc_tokens])" using that by simp
    ultimately show ?thesis using scan_ends_largest [OF ends] that(3) by blast
  qed
  have "improve_answer_span doc_tokens answer_tokens input_start input_end = (int s, int e)"
    using res by (simp add: improve_answer_span_def)
  moreover have "concat (slice doc_tokens s (e + 1)) = concat answer_tokens"
    using e_ok by (simp add: span_matches_def)
  ultimately have "\<exists>s e. improve_answer_span doc_tokens answer_tokens input_start input_end
        = (int s, int e)
      \<and> s \<le> e \<and> e < length doc_tokens
      \<and> concat (slice doc_tokens s (e + 1)) = concat answer_tokens
      \<and> (\<forall>s' e'. s' \<le> e' \<and> e' < length doc_tokens
            \<and> span_matches doc_tokens answer_tokens s' e' \<longrightarrow> s \<le> s')
      \<and> (\<forall>e'. s \<le> e' \<and> e' < length doc_tokens
            \<and> span_matches doc_tokens answer_tokens s e' \<longrightarrow> e' \<le> e)"
    using e_in smallest largest by blast
  with True show ?thesis by (simp only: if_True)
qed

theorem improve_answer_span_first_match_witness:
  "(\<exists>s e. s \<le> e \<and> e < length [''ab'', ''c'', ''ab'', ''c'']
        \<and> span_matches [''ab'', ''c'', ''ab'', ''c''] [''a'', ''bc''] s e)
   \<and> improve_answer_span [''ab'', ''c'', ''ab'', ''c''] [''a'', ''bc''] 7 9 = (0, 1)"
proof -
  have m: "span_matches [''ab'', ''c'', ''ab'', ''c''] [''a'', ''bc''] 0 1"
    by (simp add: span_matches_def slice_def)
  then have ex: "\<exists>s e. s \<le> e \<and> e < length [''ab'', ''c'', ''ab'', ''c'']
        \<and> span_matches [''ab'', ''c'', ''ab'', ''c''] [''a'', ''bc''] s e"
    by (intro exI [of _ 0] exI [of _ 1]) simp
  have ev: "improve_answer_span [''ab'', ''c'', ''ab'', ''c''] [''a'', ''bc''] 7 9 = (0, 1)"
    by code_simp
  show ?thesis
    using improve_answer_span_first_match
      [of "[''ab'', ''c'', ''ab'', ''c'']" "[''a'', ''bc'']" 7 9] ex ev
    by simp
qed

text \<open>
  The fallback: no slice of \<open>["ab", "c"]\<close> concatenates to \<open>"b"\<close>, and the pair given
  comes back unchanged.
\<close>

lemma improve_answer_span_fallback_example:
  "improve_answer_span [''ab'', ''c''] [''b''] 7 9 = (7, 9)"
  by code_simp

section \<open>Properties of the max-context resolver\<close>

text \<open>The strict comparison of two finite floats compares their numbers.\<close>

lemma pyfloat_less_iff: "Fin x < Fin y \<longleftrightarrow> float_val x < float_val y"
  by (auto simp: less_pyfloat_def float_le_iff)

text \<open>The evaluation of the score raises nothing but \<open>OverflowError\<close>.\<close>

lemma py_score_error: "py_score m l = Inl e \<Longrightarrow> e = OverflowError"
  by (auto simp: py_score_def float_of_int_def split: sum.splits if_splits)

text \<open>
  Values of the score, with the floats that Python prints for them: \<open>0.05\<close>, \<open>1.05\<close>,
  \<open>64.28\<close>, \<open>0.0\<close>, \<open>0.010000000000000009\<close>, \<open>-6.97\<close>, \<open>9007199254740992.0\<close>,
  \<open>90071992547409.97\<close> and \<open>1.000000000001e+30\<close>; the largest integer that is converted
  to a float and the smallest that is not; and a sum that overflows to \<open>inf\<close>.
\<close>

lemma py_score_examples:
  "py_score 0 5 = Inr (Fin (7205759403792794, -57))"
  "py_score 1 5 = Inr (Fin (4728779608739021, -52))"
  "py_score 63 128 = Inr (Fin (4523302875740242, -46))"
  "py_score (-1) 100 = Inr (Fin (0, 0))"
  "py_score (-1) 101 = Inr (Fin (5764607523034240, -59))"
  "py_score (-7) 3 = Inr (Fin (-7847522350693089, -50))"
  "py_score (2 ^ 53 + 1) 0 = Inr (Fin (4503599627370496, 1))"
  "py_score 0 (2 ^ 53 + 3) = Inr (Fin (5764607523034238, -6))"
  "py_score (10 ^ 30) (10 ^ 20) = Inr (Fin (7105427357608107, 47))"
  "float_of_int (2 ^ 1024 - 2 ^ 970 - 1) = Inr (9007199254740991, 971)"
  "float_of_int (2 ^ 1024 - 2 ^ 970) = Inl OverflowError"
  "py_score (2 ^ 1024 - 2 ^ 971) (2 ^ 1024 - 2 ^ 971) = Inr PosInf"
  by code_simp+

lemma new_check_loop_Cons:
  "new_check_loop fl pos (enumerate n (d # ds)) best =
     (case step_best fl pos n d best of
        Inl e \<Rightarrow> Inl e
      | Inr b \<Rightarrow> new_check_loop fl pos (enumerate (Suc n) ds) b)"
  by (auto simp: step_best_def covers_def window_score_def Let_def split: option.splits sum.splits)

lemma not_less_total:
  fixes a b :: "'f::preorder"
  assumes "\<And>x y :: 'f. x \<le> y \<or> y \<le> x" and "\<not> a < b"
  shows "b \<le> a"
  using assms by (auto simp: less_le_not_le)

lemma step_best_returns:
  assumes "covers d pos \<longrightarrow> \<not> isl (window_score fl d pos)"
  shows "\<exists>b. step_best fl pos n d best = Inr b"
  using assms by (cases "window_score fl d pos") (auto simp: step_best_def)

lemma new_check_loop_returns:
  assumes "\<forall>k<length ds. covers (ds ! k) pos \<longrightarrow> \<not> isl (window_score fl (ds ! k) pos)"
  shows "\<exists>r. new_check_loop fl pos (enumerate n ds) best = Inr r"
  using assms
proof (induction ds arbitrary: n best)
  case Nil
  then show ?case by simp
next
  case (Cons d ds)
  from Cons.prems have "covers d pos \<longrightarrow> \<not> isl (window_score fl d pos)" by auto
  from step_best_returns [OF this]
  obtain b where b: "step_best fl pos n d best = Inr b" ..
  from Cons.prems
  have "\<forall>k<length ds. covers (ds ! k) pos \<longrightarrow> \<not> isl (window_score fl (ds ! k) pos)"
    by auto
  from Cons.IH [OF this, of "Suc n" b] show ?case
    unfolding new_check_loop_Cons by (simp add: b)
qed

lemma step_best_cases:
  fixes fl :: "int \<Rightarrow> int \<Rightarrow> error + 'f::preorder"
  assumes total: "\<And>x y :: 'f. x \<le> y \<or> y \<le> x"
    and b: "step_best fl pos n d best = Inr b"
  shows "if covers d pos
     then \<exists>s. window_score fl d pos = Inr s
        \<and> (b = Some (s, n) \<and> (case best of None \<Rightarrow> True | Some (bs, bi) \<Rightarrow> bs < s)
           \<or> b = best \<and> (\<exists>bs bi. best = Some (bs, bi) \<and> s \<le> bs))
     else b = best"
  using b not_less_total [OF total]
  by (auto simp: step_best_def split: sum.splits option.splits if_splits)

text \<open>
  What the loop has computed when it ends: nothing if it started with nothing and no
  window covers the position; otherwise a score that bounds the score of every covering
  window, held either by the pair it started with or by the first window that attains it.
\<close>

lemma new_check_loop_inv:
  fixes fl :: "int \<Rightarrow> int \<Rightarrow> error + 'f::preorder"
  assumes total: "\<And>x y :: 'f. x \<le> y \<or> y \<le> x"
    and r: "new_check_loop fl pos (enumerate n ds) best = Inr r"
  shows "case r of
      None \<Rightarrow> best = None \<and> (\<forall>k<length ds. \<not> covers (ds ! k) pos)
    | Some (sc, i) \<Rightarrow>
        (\<forall>k<length ds. covers (ds ! k) pos \<longrightarrow>
           (\<exists>s. window_score fl (ds ! k) pos = Inr s \<and> s \<le> sc)) \<and>
        (best = Some (sc, i) \<or>
         (\<exists>k<length ds. i = n + k \<and> covers (ds ! k) pos
            \<and> window_score fl (ds ! k) pos = Inr sc \<and>
            (\<forall>j<k. covers (ds ! j) pos \<longrightarrow>
               (\<exists>s. window_score fl (ds ! j) pos = Inr s \<and> s < sc)) \<and>
            (case best of None \<Rightarrow> True | Some (bs, bi) \<Rightarrow> bs < sc))) \<and>
        (case best of None \<Rightarrow> True | Some (bs, bi) \<Rightarrow> bs \<le> sc)"
  using r
proof (induction ds arbitrary: n best)
  case Nil
  then show ?case by (auto split: option.splits)
next
  case (Cons d ds)
  from Cons.prems obtain b where b: "step_best fl pos n d best = Inr b"
    and r': "new_check_loop fl pos (enumerate (Suc n) ds) b = Inr r"
    unfolding new_check_loop_Cons by (auto split: sum.splits)
  from step_best_cases [OF total b]
  have c: "if covers d pos
     then \<exists>s. window_score fl d pos = Inr s
        \<and> (b = Some (s, n) \<and> (case best of None \<Rightarrow> True | Some (bs, bi) \<Rightarrow> bs < s)
           \<or> b = best \<and> (\<exists>bs bi. best = Some (bs, bi) \<and> s \<le> bs))
     else b = best" .
  show ?case
    using Cons.IH [OF r'] c
    by (auto simp: All_less_Suc2 Ex_less_Suc2 split: option.splits if_splits
        intro: order_trans less_imp_le less_le_trans le_less_trans)
      (metis less_le_trans less_imp_le)+
qed

text \<open>A covering window whose score cannot be computed makes the loop raise.\<close>

lemma new_check_loop_raises:
  assumes "k < length ds" and "covers (ds ! k) pos"
    and "isl (window_score py_score (ds ! k) pos)"
  shows "new_check_loop py_score pos (enumerate n ds) best = Inl OverflowError"
  using assms
proof (induction ds arbitrary: n best k)
  case Nil
  then show ?case by simp
next
  case (Cons d ds)
  show ?case
  proof (cases "step_best py_score pos n d best")
    case (Inl e)
    then have "e = OverflowError"
      by (auto simp: step_best_def window_score_def split: if_splits sum.splits
          dest: py_score_error)
    with Inl show ?thesis unfolding new_check_loop_Cons by simp
  next
    case (Inr b)
    have "k \<noteq> 0"
    proof
      assume "k = 0"
      with Cons.prems have "covers d pos" "isl (window_score py_score d pos)" by simp_all
      with Inr show False by (auto simp: step_best_def split: sum.splits)
    qed
    then obtain k' where k: "k = Suc k'" by (cases k) auto
    with Cons.prems have "k' < length ds" "covers (ds ! k') pos"
      "isl (window_score py_score (ds ! k') pos)" by simp_all
    from Cons.IH [OF this] Inr show ?thesis unfolding new_check_loop_Cons by simp
  qed
qed

text \<open>
  C4. For every list of windows and every position, with the score
  \<open>min(position - start, start + length - 1 - position) + 0.01 * length\<close> evaluated in
  binary64 floats as Python does: if the score of some covering window cannot be computed
  (its length is too large for a float), every call of \<open>_new_check_is_max_context\<close>
  raises \<open>OverflowError\<close>. Otherwise, if some window covers the position, exactly one
  window index makes \<open>_new_check_is_max_context\<close> true, and it is the index of a covering
  window whose score is at least the score of every covering window and strictly above
  the score of every covering window before it (the first window that attains the
  highest score); and if no window covers the position, no index makes it true.
\<close>

theorem max_context_partition:
  fixes doc_spans :: "'a doc_span_scheme list"
  shows "if \<exists>v<length doc_spans. covers (doc_spans ! v) position
          \<and> isl (window_score py_score (doc_spans ! v) position)
     then \<forall>c. new_check_is_max_context py_score doc_spans c position = Inl OverflowError
     else if \<exists>w<length doc_spans. covers (doc_spans ! w) position
     then \<exists>w<length doc_spans. covers (doc_spans ! w) position
        \<and> (\<forall>c. new_check_is_max_context py_score doc_spans c position = Inr (c = int w))
        \<and> (\<forall>v<length doc_spans. covers (doc_spans ! v) position \<longrightarrow>
              projr (window_score py_score (doc_spans ! v) position)
                \<le> projr (window_score py_score (doc_spans ! w) position))
        \<and> (\<forall>v<w. covers (doc_spans ! v) position \<longrightarrow>
              projr (window_score py_score (doc_spans ! v) position)
                < projr (window_score py_score (doc_spans ! w) position))
     else \<forall>c. new_check_is_max_context py_score doc_spans c position = Inr False"
proof (cases "\<exists>v<length doc_spans. covers (doc_spans ! v) position
          \<and> isl (window_score py_score (doc_spans ! v) position)")
  case True
  then obtain v where "v < length doc_spans" "covers (doc_spans ! v) position"
    "isl (window_score py_score (doc_spans ! v) position)" by blast
  from new_check_loop_raises [OF this, of 0 None]
  have "\<forall>c. new_check_is_max_context py_score doc_spans c position = Inl OverflowError"
    by (simp add: new_check_is_max_context_def)
  with True show ?thesis by (simp only: if_True simp_thms)
next
  case False
  then have ok: "\<forall>k<length doc_spans. covers (doc_spans ! k) position \<longrightarrow>
      \<not> isl (window_score py_score (doc_spans ! k) position)" by blast
  from new_check_loop_returns [OF ok, of 0 None]
  obtain r where r: "new_check_loop py_score position (enumerate 0 doc_spans) None = Inr r" ..
  note inv = new_check_loop_inv [OF pyfloat_total r]
  show ?thesis
  proof (cases r)
    case None
    with inv have no: "\<not> (\<exists>w<length doc_spans. covers (doc_spans ! w) position)" by simp
    have "\<forall>c. new_check_is_max_context py_score doc_spans c position = Inr False"
      using r None by (simp add: new_check_is_max_context_def)
    with False no show ?thesis by (simp only: if_False simp_thms)
  next
    case (Some p)
    obtain sc i where p: "p = (sc, i)" by (cases p)
    from inv Some p
    have i: "i < length doc_spans" "covers (doc_spans ! i) position"
      and sc: "window_score py_score (doc_spans ! i) position = Inr sc"
      and le: "\<forall>k<length doc_spans. covers (doc_spans ! k) position \<longrightarrow>
        (\<exists>s. window_score py_score (doc_spans ! k) position = Inr s \<and> s \<le> sc)"
      and lt: "\<forall>j<i. covers (doc_spans ! j) position \<longrightarrow>
        (\<exists>s. window_score py_score (doc_spans ! j) position = Inr s \<and> s < sc)"
      by auto
    have own: "\<forall>c. new_check_is_max_context py_score doc_spans c position = Inr (c = int i)"
      using r Some p by (simp add: new_check_is_max_context_def)
    have le': "\<forall>v<length doc_spans. covers (doc_spans ! v) position \<longrightarrow>
              projr (window_score py_score (doc_spans ! v) position)
                \<le> projr (window_score py_score (doc_spans ! i) position)"
      using le sc by fastforce
    have lt': "\<forall>v<i. covers (doc_spans ! v) position \<longrightarrow>
              projr (window_score py_score (doc_spans ! v) position)
                < projr (window_score py_score (doc_spans ! i) position)"
      using lt sc by fastforce
    have yes: "\<exists>w<length doc_spans. covers (doc_spans ! w) position" using i by blast
    have "\<exists>w<length doc_spans. covers (doc_spans ! w) position
        \<and> (\<forall>c. new_check_is_max_context py_score doc_spans c position = Inr (c = int w))
        \<and> (\<forall>v<length doc_spans. covers (doc_spans ! v) position \<longrightarrow>
              projr (window_score py_score (doc_spans ! v) position)
                \<le> projr (window_score py_score (doc_spans ! w) position))
        \<and> (\<forall>v<w. covers (doc_spans ! v) position \<longrightarrow>
              projr (window_score py_score (doc_spans ! v) position)
                < projr (window_score py_score (doc_spans ! w) position))"
      using i own le' lt' by blast
    with False yes show ?thesis by (simp only: if_False if_True)
  qed
qed

theorem max_context_partition_witness:
  "(\<exists>w<length [\<lparr>start = 0, length' = 5\<rparr>, \<lparr>start = 3, length' = 5\<rparr>].
      covers ([\<lparr>start = 0, length' = 5\<rparr>, \<lparr>start = 3, length' = 5\<rparr>] ! w) 4)
   \<and> new_check_is_max_context py_score
        [\<lparr>start = 0, length' = 5\<rparr>, \<lparr>start = 3, length' = 5\<rparr>] 1 4 = Inr True
   \<and> new_check_is_max_context py_score
        [\<lparr>start = 0, length' = 5\<rparr>, \<lparr>start = 3, length' = 5\<rparr>] 0 4 = Inr False"
proof -
  let ?ds = "[\<lparr>start = 0, length' = 5\<rparr>, \<lparr>start = 3, length' = 5\<rparr>]"
  have c: "\<exists>w<length ?ds. covers (?ds ! w) 4"
    by (intro exI [of _ 0]) (simp add: covers_def)
  have s0: "window_score py_score \<lparr>start = 0, length' = 5\<rparr> 4
      = Inr (Fin (7205759403792794, -57))"
    by code_simp
  have s1: "window_score py_score \<lparr>start = 3, length' = 5\<rparr> 4
      = Inr (Fin (4728779608739021, -52))"
    by code_simp
  have n: "\<not> (\<exists>v<length ?ds. covers (?ds ! v) 4 \<and> isl (window_score py_score (?ds ! v) 4))"
    by (simp add: Ex_less_Suc s0 s1)
  have own: "new_check_is_max_context py_score ?ds 1 4 = Inr True"
    by code_simp
  from max_context_partition [where position = 4 and doc_spans = ?ds] c n
  obtain w where "\<forall>c. new_check_is_max_context py_score ?ds c 4 = Inr (c = int w)"
    by (simp only: if_False if_True) blast
  with own have "new_check_is_max_context py_score ?ds 0 4 = Inr False"
    by auto
  with c own show ?thesis by blast
qed

text \<open>
  The windows \<open>[0, 118)\<close> and \<open>[114, 132)\<close> and the position 116: the two scores
  \<open>1 + 0.01 * 118\<close> and \<open>2 + 0.01 * 18\<close> denote the same number, so that the window scored
  first, window 0, would keep the position; in floats the first is
  \<open>2.1799999999999997\<close> and the second \<open>2.18\<close>, and the code gives the position to window 1.
\<close>

theorem max_context_rounding_counterexample:
  "covers \<lparr>start = 0, length' = 118\<rparr> 116 \<and> covers \<lparr>start = 114, length' = 18\<rparr> 116
   \<and> exact_window_score \<lparr>start = 0, length' = 118\<rparr> 116
       = exact_window_score \<lparr>start = 114, length' = 18\<rparr> 116
   \<and> window_score py_score \<lparr>start = 0, length' = 118\<rparr> 116
       = Inr (Fin (4908923593833840, -51))
   \<and> window_score py_score \<lparr>start = 114, length' = 18\<rparr> 116
       = Inr (Fin (4908923593833841, -51))
   \<and> new_check_is_max_context py_score
        [\<lparr>start = 0, length' = 118\<rparr>, \<lparr>start = 114, length' = 18\<rparr>] 0 116 = Inr False
   \<and> new_check_is_max_context py_score
        [\<lparr>start = 0, length' = 118\<rparr>, \<lparr>start = 114, length' = 18\<rparr>] 1 116 = Inr True"
  by code_simp

text \<open>Two windows with the same score: the first one scored keeps the position.\<close>

lemma max_context_tie_example:
  "new_check_is_max_context py_score
     [\<lparr>start = 0, length' = 4\<rparr>, \<lparr>start = 0, length' = 4\<rparr>] 0 1 = Inr True
   \<and> new_check_is_max_context py_score
     [\<lparr>start = 0, length' = 4\<rparr>, \<lparr>start = 0, length' = 4\<rparr>] 1 1 = Inr False"
  by code_simp

text \<open>
  A window whose length is \<open>2 ^ 1024\<close> has no score: the conversion of the length to a
  float raises \<open>OverflowError\<close>.
\<close>

lemma max_context_overflow_example:
  "new_check_is_max_context py_score [\<lparr>start = 0, length' = 2 ^ 1024\<rparr>] 0 0
     = Inl OverflowError"
  by code_simp

lemma check_loop_same:
  assumes "list_all2 same_data objs dicts"
  shows "check_loop fl pos (enumerate n objs) best = new_check_loop fl pos (enumerate n dicts) best"
  using assms
proof (induction objs dicts arbitrary: n best rule: list_all2_induct)
  case Nil
  then show ?case by simp
next
  case (Cons x xs y ys)
  then show ?case by (simp add: same_data_def Let_def split: sum.splits)
qed

text \<open>
  C10. For every list of windows, window index and position, \<open>_check_is_max_context\<close> on
  the windows read by attribute and \<open>_new_check_is_max_context\<close> on the windows read by
  key return the same boolean, when each object and its dictionary hold the same
  \<open>start\<close> and \<open>length\<close>.
\<close>

theorem check_is_max_context_equiv:
  fixes fl :: "int \<Rightarrow> int \<Rightarrow> error + 'f::ord"
  assumes "list_all2 same_data objs dicts"
  shows "check_is_max_context fl objs cur_span_index position
           = new_check_is_max_context fl dicts cur_span_index position"
  using check_loop_same [OF assms, where fl = fl and pos = position and n = 0 and best = None]
  by (simp add: check_is_max_context_def new_check_is_max_context_def)

theorem check_is_max_context_equiv_witness:
  "list_all2 same_data
     [\<lparr>DocSpan.start = 0, length' = 5\<rparr>, \<lparr>DocSpan.start = 3, length' = 5\<rparr>]
     [\<lparr>doc_span.start = 0, length' = 5\<rparr>, \<lparr>doc_span.start = 3, length' = 5\<rparr>]
   \<and> check_is_max_context py_score
        [\<lparr>DocSpan.start = 0, length' = 5\<rparr>, \<lparr>DocSpan.start = 3, length' = 5\<rparr>] 1 4 = Inr True
   \<and> new_check_is_max_context py_score
        [\<lparr>doc_span.start = 0, length' = 5\<rparr>, \<lparr>doc_span.start = 3, length' = 5\<rparr>] 1 4
       = Inr True"
proof -
  have s: "list_all2 same_data
     [\<lparr>DocSpan.start = 0, length' = 5\<rparr>, \<lparr>DocSpan.start = 3, length' = 5\<rparr>]
     [\<lparr>doc_span.start = 0, length' = 5\<rparr>, \<lparr>doc_span.start = 3, length' = 5\<rparr>]"
    by (simp add: same_data_def)
  have n: "new_check_is_max_context py_score
        [\<lparr>doc_span.start = 0, length' = 5\<rparr>, \<lparr>doc_span.start = 3, length' = 5\<rparr>] 1 4
       = Inr True"
    by code_simp
  from check_is_max_context_equiv [OF s, where fl = py_score and cur_span_index = 1
      and position = 4] n s
  show ?thesis by simp
qed
section \<open>Properties of the examples\<close>

text \<open>
  C9. An \<open>AlibabaExample\<close> built with \<open>is_impossible\<close> false and an answer text (a
  string that is not empty: an empty one is false in Python, as \<open>None\<close> is) has
  \<open>start_position = start_position_character\<close> and
  \<open>end_position = start_position_character + len(answer_text) - 1\<close>; an example that is
  impossible or has no answer text has both positions 0.
\<close>

theorem AlibabaExample_init_positions:
  "(\<forall>a s. \<not> imp \<and> answer = Some a \<and> a \<noteq> [] \<and> start_char = Some s \<longrightarrow>
      (\<exists>ex. AlibabaExample_init i q c answer start_char t ans imp chal = Inr ex
         \<and> AlibabaExample.start_position ex = s \<and> AlibabaExample.end_position ex = s + int (length a) - 1))
   \<and> (imp \<or> answer = None \<or> answer = Some [] \<longrightarrow>
      (\<exists>ex. AlibabaExample_init i q c answer start_char t ans imp chal = Inr ex
         \<and> AlibabaExample.start_position ex = 0 \<and> AlibabaExample.end_position ex = 0))"
  by (auto simp: AlibabaExample_init_def)

theorem AlibabaExample_init_positions_witness:
  "\<exists>ex. AlibabaExample_init 3 (Some ''Who?'') ''The quick brown fox jumps.''
           (Some ''brown fox'') (Some 10) ''fox'' [] False False = Inr ex
        \<and> AlibabaExample.start_position ex = 10 \<and> AlibabaExample.end_position ex = 18"
  using AlibabaExample_init_positions [of False "Some ''brown fox''" "Some 10" 3
      "Some ''Who?''" "''The quick brown fox jumps.''" "''fox''" "[]" False]
  by simp


















text \<open>
  Outside training mode the same question is rejected and recorded, and the question
  after it is processed.
\<close>

lemma create_examples_dev_example:
  "map_sum id (\<lambda>(exs, invalid). (map AlibabaExample.qas_id exs, invalid))
     (create_examples unanswered_dataset ''dev'') = Inr ([3], [4])"
  by (simp add: create_examples_def unanswered_dataset_def example_of_def classify_def
      AlibabaExample_init_def py_slice_def slice_bound_def slice_def Let_def)
section \<open>Properties of the window slicer\<close>

lemma make_span_start:
  "start (make_span tok d q M s spans sdt) = int (length spans) * s"
  by (simp add: make_span_def Let_def)

lemma make_span_length:
  "length' (make_span tok d q M s spans sdt)
     = min (int (length d) - int (length spans) * s)
         (M - int (length q) - sequence_pair_added_tokens tok)"
  by (simp add: make_span_def Let_def)

lemma make_span_overflow:
  "span.overflowing_tokens (make_span tok d q M s spans sdt)
     = BatchEncoding.overflowing_tokens
         (encode_plus tok q sdt M (M - s - int (length q) - sequence_pair_added_tokens tok))"
  by (simp add: make_span_def Let_def)

text \<open>With a positive stride the loop ends, whatever the tokenizer reports.\<close>

lemma slice_loop_returns:
  assumes "0 < s"
  shows "\<exists>r. slice_loop tok d q M s spans sdt = Some r"
proof (induction "nat (int (length d) - int (length spans) * s)" arbitrary: spans sdt
    rule: less_induct)
  case less
  show ?case
  proof (cases "int (length spans) * s < int (length d)")
    case False
    then show ?thesis by (subst slice_loop.simps) simp
  next
    case True
    let ?sp = "make_span tok d q M s spans sdt"
    have dec: "nat (int (length d) - int (length (spans @ [?sp])) * s)
        < nat (int (length d) - int (length spans) * s)"
      using assms True by (simp add: algebra_simps)
    show ?thesis
    proof (cases "span.overflowing_tokens ?sp")
      case None
      with True show ?thesis by (subst slice_loop.simps) (simp add: Let_def)
    next
      case (Some overflow)
      from less [OF dec, of "Ids overflow"] obtain r where
        "slice_loop tok d q M s (spans @ [?sp]) (Ids overflow) = Some r" by blast
      with True Some show ?thesis by (subst slice_loop.simps) (simp add: Let_def)
    qed
  qed
qed

lemma slice_loop_from:
  assumes pos: "0 < s"
      and fit: "s \<le> M - int (length q) - sequence_pair_added_tokens tok"
      and trunc: "simple_truncation tok q M s"
      and rem: "int (pair_len sdt) = int (length d) - int (length spans) * s"
  shows "\<exists>more. slice_loop tok d q M s spans sdt = Some (spans @ more)
     \<and> (\<forall>j<length more. start (more ! j) = int (length spans + j) * s
          \<and> length' (more ! j) = min (int (length d) - int (length spans + j) * s)
               (M - int (length q) - sequence_pair_added_tokens tok))
     \<and> (int (length spans) * s < int (length d) \<longrightarrow>
          more \<noteq> [] \<and> start (last more) + length' (last more) = int (length d))"
  using rem
proof (induction "nat (int (length d) - int (length spans) * s)" arbitrary: spans sdt
    rule: less_induct)
  case less
  let ?B = "M - int (length q) - sequence_pair_added_tokens tok"
  let ?k = "length spans"
  let ?sp = "make_span tok d q M s spans sdt"
  show ?case
  proof (cases "int ?k * s < int (length d)")
    case False
    then have "slice_loop tok d q M s spans sdt = Some (spans @ [])"
      by (subst slice_loop.simps) simp
    with False show ?thesis by (intro exI [of _ "[]"]) simp
  next
    case True
    from trunc have t: "if int (pair_len sdt) \<le> ?B
        then span.overflowing_tokens ?sp = None \<or> span.overflowing_tokens ?sp = Some []
        else \<exists>overflow. span.overflowing_tokens ?sp = Some overflow
               \<and> int (length overflow) = int (pair_len sdt) - s"
      unfolding simple_truncation_def make_span_overflow Let_def by blast
    show ?thesis
    proof (cases "int (pair_len sdt) \<le> ?B")
      case fits: True
      with t have ov: "span.overflowing_tokens ?sp = None \<or> span.overflowing_tokens ?sp = Some []"
        by simp
      have r: "slice_loop tok d q M s spans sdt = Some (spans @ [?sp])"
        using True ov by (subst slice_loop.simps) (auto simp: Let_def)
      have "start ?sp + length' ?sp = int (length d)"
        using fits less.prems by (simp add: make_span_start make_span_length)
      with r show ?thesis
        by (intro exI [of _ "[?sp]"]) (simp add: make_span_start make_span_length)
    next
      case more: False
      with t obtain overflow where ov: "span.overflowing_tokens ?sp = Some overflow"
        and len: "int (length overflow) = int (pair_len sdt) - s"
        by auto
      from more less.prems fit have big: "int (length d) - int ?k * s > s" by simp
      with len less.prems have ne: "length overflow \<noteq> 0" by auto
      have r: "slice_loop tok d q M s spans sdt
          = slice_loop tok d q M s (spans @ [?sp]) (Ids overflow)"
        using True ov ne by (subst slice_loop.simps) (simp add: Let_def)
      have rem': "int (pair_len (Ids overflow))
          = int (length d) - int (length (spans @ [?sp])) * s"
        using len less.prems by (simp add: algebra_simps)
      have dec: "nat (int (length d) - int (length (spans @ [?sp])) * s)
          < nat (int (length d) - int ?k * s)"
        using pos big by (simp add: algebra_simps)
      from less.hyps [OF dec rem'] obtain more' where
        m1: "slice_loop tok d q M s (spans @ [?sp]) (Ids overflow) = Some ((spans @ [?sp]) @ more')"
        and m2: "\<forall>j<length more'. start (more' ! j) = int (length (spans @ [?sp]) + j) * s
          \<and> length' (more' ! j) = min (int (length d) - int (length (spans @ [?sp]) + j) * s) ?B"
        and m3: "int (length (spans @ [?sp])) * s < int (length d) \<longrightarrow>
          more' \<noteq> [] \<and> start (last more') + length' (last more') = int (length d)"
        by blast
      have next_lt: "int (length (spans @ [?sp])) * s < int (length d)"
        using big by (simp add: algebra_simps)
      with m3 have l: "more' \<noteq> []" "start (last more') + length' (last more') = int (length d)"
        by simp_all
      have "slice_loop tok d q M s spans sdt = Some (spans @ (?sp # more'))"
        using r m1 by simp
      moreover have "\<forall>j<length (?sp # more'). start ((?sp # more') ! j) = int (?k + j) * s
          \<and> length' ((?sp # more') ! j) = min (int (length d) - int (?k + j) * s) ?B"
        using m2 by (auto simp: All_less_Suc2 make_span_start make_span_length ac_simps)
      moreover have "?sp # more' \<noteq> []
          \<and> start (last (?sp # more')) + length' (last (?sp # more')) = int (length d)"
        using l by simp
      ultimately show ?thesis by blast
    qed
  qed
qed


lemma stride_window_covers:
  fixes s B n p :: int
  assumes "0 < s" "s \<le> B" "0 \<le> p" "p < n"
  shows "(p div s) * s \<le> p \<and> p < (p div s) * s + min (n - (p div s) * s) B"
proof -
  have a: "(p div s) * s \<le> p" using assms(1) by (metis div_mult_mod_eq le_add_same_cancel1 pos_mod_sign)
  have "p mod s < s" using assms(1) by simp
  then have b: "p < (p div s) * s + s" by (metis add.commute add_less_cancel_left div_mult_mod_eq)
  from a b assms show ?thesis by (simp add: min_def)
qed

text \<open>
  C5, as amended. The claim as stated asks only for a positive \<open>doc_stride\<close> below
  \<open>max_seq_length\<close>; a stride above the budget of a window,
  \<open>max_seq_length - len(truncated_query) - sequence_pair_added_tokens\<close>, leaves tokens
  between two windows that no window holds (see the counterexample below). For a
  positive \<open>doc_stride\<close> that is at most this budget, and a tokenizer that truncates as
  the slicer expects, the loop ends; window \<open>k\<close> has \<open>start = k * doc_stride\<close> and
  \<open>length = min(len(doc_tokens) - k * doc_stride, budget)\<close>; every position of
  \<open>[0, len(doc_tokens))\<close> lies in some window; and the last window ends at
  \<open>len(doc_tokens)\<close>.
\<close>

theorem slice_loop_covers:
  assumes pos: "0 < doc_stride"
      and fit: "doc_stride \<le> max_seq_length - int (length truncated_query)
                  - sequence_pair_added_tokens tok"
      and trunc: "simple_truncation tok truncated_query max_seq_length doc_stride"
  shows "\<exists>spans.
       slice_loop tok doc_tokens truncated_query max_seq_length doc_stride []
         (Tokens doc_tokens) = Some spans
     \<and> (\<forall>k<length spans. start (spans ! k) = int k * doc_stride
          \<and> length' (spans ! k) = min (int (length doc_tokens) - int k * doc_stride)
               (max_seq_length - int (length truncated_query)
                  - sequence_pair_added_tokens tok))
     \<and> (\<forall>p. 0 \<le> p \<and> p < int (length doc_tokens) \<longrightarrow>
          (\<exists>k<length spans. start (spans ! k) \<le> p
             \<and> p < start (spans ! k) + length' (spans ! k)))
     \<and> (spans \<noteq> [] \<longrightarrow>
          start (last spans) + length' (last spans) = int (length doc_tokens))"
proof -
  let ?B = "max_seq_length - int (length truncated_query) - sequence_pair_added_tokens tok"
  let ?n = "int (length doc_tokens)"
  have rem: "int (pair_len (Tokens doc_tokens)) = ?n - int (length ([] :: span list)) * doc_stride"
    by simp
  from slice_loop_from [OF pos fit trunc rem] obtain spans where
    r: "slice_loop tok doc_tokens truncated_query max_seq_length doc_stride []
          (Tokens doc_tokens) = Some spans"
    and w: "\<forall>k<length spans. start (spans ! k) = int k * doc_stride
          \<and> length' (spans ! k) = min (?n - int k * doc_stride) ?B"
    and l: "0 < ?n \<longrightarrow> spans \<noteq> [] \<and> start (last spans) + length' (last spans) = ?n"
    by auto
  have cov: "\<exists>k<length spans. start (spans ! k) \<le> p \<and> p < start (spans ! k) + length' (spans ! k)"
    if p: "0 \<le> p" "p < ?n" for p
  proof -
    from p have "0 < ?n" by linarith
    with l have ne: "spans \<noteq> []" and e: "start (last spans) + length' (last spans) = ?n"
      by blast+
    from stride_window_covers [OF pos fit p]
    have c: "(p div doc_stride) * doc_stride \<le> p"
      "p < (p div doc_stride) * doc_stride + min (?n - (p div doc_stride) * doc_stride) ?B"
      by simp_all
    have d0: "0 \<le> p div doc_stride" using p(1) pos by (simp add: pos_imp_zdiv_nonneg_iff)
    show ?thesis
    proof (cases "nat (p div doc_stride) < length spans")
      case True
      with w d0 have "start (spans ! nat (p div doc_stride)) = (p div doc_stride) * doc_stride"
        "length' (spans ! nat (p div doc_stride))
           = min (?n - (p div doc_stride) * doc_stride) ?B"
        by simp_all
      with c True show ?thesis by (intro exI [of _ "nat (p div doc_stride)"]) simp
    next
      case False
      let ?m = "length spans - 1"
      from ne have m: "?m < length spans" by simp
      from False have "length spans \<le> nat (p div doc_stride)" by simp
      with d0 have "int (length spans) \<le> p div doc_stride" by linarith
      then have "int ?m \<le> p div doc_stride" by linarith
      then have "int ?m * doc_stride \<le> (p div doc_stride) * doc_stride"
        using pos by (simp add: mult_right_mono)
      with c(1) w m have "start (spans ! ?m) \<le> p" by simp
      moreover have "last spans = spans ! ?m" using ne by (simp add: last_conv_nth)
      ultimately show ?thesis using e p(2) m by (intro exI [of _ ?m]) simp
    qed
  qed
  have fin: "spans \<noteq> [] \<longrightarrow> start (last spans) + length' (last spans) = ?n"
  proof
    assume ne: "spans \<noteq> []"
    have "0 < ?n"
    proof (rule ccontr)
      assume "\<not> 0 < ?n"
      then have "slice_loop tok doc_tokens truncated_query max_seq_length doc_stride []
          (Tokens doc_tokens) = Some []"
        by (subst slice_loop.simps) simp
      with r ne show False by simp
    qed
    with l show "start (last spans) + length' (last spans) = ?n" by simp
  qed
  from r w cov fin show ?thesis by blast
qed

lemma sample_simple_truncation:
  "simple_truncation (sample_tokenizer ''right'') [113] 10 3"
  unfolding simple_truncation_def
proof (intro allI)
  fix pair
  show "let budget = 10 - int (length [113::int])
              - sequence_pair_added_tokens (sample_tokenizer ''right'');
            ov = BatchEncoding.overflowing_tokens
              (encode_plus (sample_tokenizer ''right'') [113] pair 10
                 (10 - 3 - int (length [113::int])
                    - sequence_pair_added_tokens (sample_tokenizer ''right'')))
        in if int (pair_len pair) \<le> budget then ov = None \<or> ov = Some []
           else \<exists>overflow. ov = Some overflow
                  \<and> int (length overflow) = int (pair_len pair) - 3"
    by (cases pair)
       (auto simp: sequence_pair_added_tokens_def sample_tokenizer_def sample_encode_plus_def
          Let_def)
qed

theorem slice_loop_covers_witness:
  "\<exists>spans. slice_loop (sample_tokenizer ''right'') (map (\<lambda>c. [c]) ''abcdefgh'') [113] 10 3 []
        (Tokens (map (\<lambda>c. [c]) ''abcdefgh'')) = Some spans
     \<and> map (\<lambda>w. (start w, length' w)) spans = [(0, 6), (3, 5)]
     \<and> start (last spans) + length' (last spans) = 8"
proof -
  have pos: "(0::int) < 3" by simp
  have fit: "3 \<le> 10 - int (length [113::int])
      - sequence_pair_added_tokens (sample_tokenizer ''right'')"
    by (simp add: sequence_pair_added_tokens_def sample_tokenizer_def)
  have ev: "map_option (map (\<lambda>w. (start w, length' w)))
      (slice_loop (sample_tokenizer ''right'') (map (\<lambda>c. [c]) ''abcdefgh'') [113] 10 3 []
        (Tokens (map (\<lambda>c. [c]) ''abcdefgh''))) = Some [(0, 6), (3, 5)]"
    by code_simp
  from slice_loop_covers [OF pos fit sample_simple_truncation,
      of "map (\<lambda>c. [c]) ''abcdefgh''"]
  obtain spans where
    r: "slice_loop (sample_tokenizer ''right'') (map (\<lambda>c. [c]) ''abcdefgh'') [113] 10 3 []
        (Tokens (map (\<lambda>c. [c]) ''abcdefgh'')) = Some spans"
    and l: "spans \<noteq> [] \<longrightarrow>
      start (last spans) + length' (last spans) = int (length (map (\<lambda>c. [c]) ''abcdefgh''))"
    by blast
  from ev r have m: "map (\<lambda>w. (start w, length' w)) spans = [(0, 6), (3, 5)]" by simp
  then have "spans \<noteq> []" by auto
  with l have "start (last spans) + length' (last spans) = 8" by simp
  with r m show ?thesis by (intro exI [of _ spans]) simp
qed

text \<open>
  With ten context tokens, a query of four, \<open>max_seq_length = 10\<close> and \<open>doc_stride = 5\<close>
  the budget is 3: the windows are \<open>[0, 3)\<close> and \<open>[5, 8)\<close>, position 3 is in neither and
  the last window ends at 8.
\<close>

theorem slice_loop_gap_counterexample:
  "\<exists>spans. slice_loop (sample_tokenizer ''right'') (map (\<lambda>c. [c]) ''abcdefghij'')
        [113, 114, 115, 116] 10 5 [] (Tokens (map (\<lambda>c. [c]) ''abcdefghij'')) = Some spans
     \<and> map (\<lambda>w. (start w, length' w)) spans = [(0, 3), (5, 3)]
     \<and> \<not> (\<exists>k<length spans. start (spans ! k) \<le> 3 \<and> 3 < start (spans ! k) + length' (spans ! k))
     \<and> start (last spans) + length' (last spans) \<noteq> int (length (map (\<lambda>c. [c]) ''abcdefghij''))"
proof -
  have ev: "map_option (map (\<lambda>w. (start w, length' w)))
      (slice_loop (sample_tokenizer ''right'') (map (\<lambda>c. [c]) ''abcdefghij'')
        [113, 114, 115, 116] 10 5 [] (Tokens (map (\<lambda>c. [c]) ''abcdefghij'')))
      = Some [(0, 3), (5, 3)]"
    by code_simp
  then obtain spans where
    r: "slice_loop (sample_tokenizer ''right'') (map (\<lambda>c. [c]) ''abcdefghij'')
        [113, 114, 115, 116] 10 5 [] (Tokens (map (\<lambda>c. [c]) ''abcdefghij'')) = Some spans"
    and m: "map (\<lambda>w. (start w, length' w)) spans = [(0, 3), (5, 3)]"
    by auto
  from m obtain a b where ab: "spans = [a, b]" "start a = 0" "length' a = 3"
    "start b = 5" "length' b = 3"
    by (auto simp: map_eq_Cons_conv)
  have "\<not> (\<exists>k<length spans. start (spans ! k) \<le> 3 \<and> 3 < start (spans ! k) + length' (spans ! k))"
    using ab by (simp add: Ex_less_Suc2)
  moreover have "start (last spans) + length' (last spans)
      \<noteq> int (length (map (\<lambda>c. [c]) ''abcdefghij''))"
    using ab by simp
  ultimately show ?thesis using r m by (intro exI [of _ spans]) simp
qed

section \<open>Properties of the feature assembler\<close>

lemma length_set_positions [simp]: "length (set_positions P v xs) = length xs"
  by (simp add: set_positions_def)

lemma nth_set_positions:
  "i < length xs \<Longrightarrow> set_positions P v xs ! i = (if P i then v else xs ! i)"
  by (simp add: set_positions_def)

lemma fold_update_length: "length (fold (\<lambda>i q. q[i := v]) idxs p) = length p"
  by (induction idxs arbitrary: p) auto

lemma fold_update_nth:
  "j < length p \<Longrightarrow> fold (\<lambda>i q. q[i := v]) idxs p ! j = (if j \<in> set idxs then v else p ! j)"
  by (induction idxs arbitrary: p) (auto simp: fold_update_length nth_list_update)

lemma assign_indices_Inr:
  assumes "assign_indices p idxs v = Inr p'"
  shows "p' = set_positions (\<lambda>i. i \<in> set idxs) v p"
proof -
  from assms have p': "p' = fold (\<lambda>i q. q[i := v]) idxs p"
    by (simp add: assign_indices_def split: if_splits)
  show ?thesis
    by (rule nth_equalityI) (simp_all add: p' fold_update_length fold_update_nth nth_set_positions)
qed

lemma slice_bound_le: "slice_bound n k \<le> n"
  by (auto simp: slice_bound_def)

lemma assign_from_eq:
  "assign_from p k v = set_positions (\<lambda>i. slice_bound (length p) k \<le> i) v p"
proof (rule nth_equalityI)
  have "slice_bound (length p) k \<le> length p" by (rule slice_bound_le)
  then show "length (assign_from p k v)
      = length (set_positions (\<lambda>i. slice_bound (length p) k \<le> i) v p)"
    by (simp add: assign_from_def)
next
  fix i assume "i < length (assign_from p k v)"
  moreover have "slice_bound (length p) k \<le> length p" by (rule slice_bound_le)
  ultimately show "assign_from p k v ! i
      = set_positions (\<lambda>i. slice_bound (length p) k \<le> i) v p ! i"
    by (auto simp: assign_from_def nth_set_positions nth_append)
qed

lemma assign_index_Inr:
  assumes "assign_index p i v = Inr p'"
  shows "p' = set_positions (\<lambda>j. j = i) v p \<and> i < length p"
proof -
  from assms have p': "p' = p[i := v]" and i: "i < length p"
    by (simp_all add: assign_index_def split: if_splits)
  have "p' = set_positions (\<lambda>j. j = i) v p"
    by (rule nth_equalityI) (auto simp: p' nth_set_positions nth_list_update)
  with i show ?thesis by simp
qed

lemma set_where_eq: "set (where_eq xs v) = {i. i < length xs \<and> xs ! i = v}"
  by (auto simp: where_eq_def)

lemma set_nonzero: "set (nonzero xs) = {i. i < length xs \<and> xs ! i \<noteq> 0}"
  by (auto simp: nonzero_def)

lemma make_p_mask_Inr:
  assumes "make_p_mask tok q sp cls = Inr p"
  shows "p = spec_p_mask (tail_positions tok q sp) tok sp cls \<and> cls < length p"
proof -
  let ?p1 = "assign_from (ones_like (span.token_type_ids sp))
      (int (length q) + sequence_added_tokens tok) 0"
  from assms obtain p2 p3 where
    a2: "assign_indices ?p1 (where_eq (span.input_ids sp) (pad_token_id tok)) 1 = Inr p2"
    and a3: "assign_indices p2
        (nonzero (get_special_tokens_mask tok (span.input_ids sp))) 1 = Inr p3"
    and a4: "assign_index p3 cls 0 = Inr p"
    by (auto simp: make_p_mask_def Let_def split: sum.splits)
  have e1: "?p1 = set_positions (tail_positions tok q sp) 0
      (replicate (length (span.token_type_ids sp)) 1)"
    by (simp add: assign_from_eq ones_like_def tail_positions_def [abs_def])
  from assign_index_Inr [OF a4] have "p = set_positions (\<lambda>j. j = cls) 0 p3" "cls < length p3"
    by simp_all
  then show ?thesis
    unfolding assign_indices_Inr [OF a3] assign_indices_Inr [OF a2] e1
    by (simp add: spec_p_mask_def set_where_eq set_nonzero)
qed

lemma make_feature_Inr:
  assumes "make_feature tok example is_training q tp sp = Inr f"
  shows "\<exists>cls. index_of (span.input_ids sp) (cls_token_id tok) = Inr cls
     \<and> make_p_mask tok q sp cls = Inr (p_mask f) \<and> cls_index f = int cls"
  using assms
  by (auto simp: make_feature_def Let_def split: sum.splits if_splits option.splits)

text \<open>
  What the code computes for every window for which a feature is emitted: the four
  steps of the specification in their order, with the second step reaching every
  position from \<open>len(truncated_query) + sequence_added_tokens\<close> to the end of the
  sequence. The position of the classification token holds 0 in every feature.
\<close>

lemma p_mask_override_order:
  assumes "make_feature tok example is_training truncated_query tok_positions sp = Inr f"
  shows "p_mask f = spec_p_mask (tail_positions tok truncated_query sp) tok sp (nat (cls_index f))
     \<and> nat (cls_index f) < length (p_mask f)
     \<and> p_mask f ! nat (cls_index f) = 0"
proof -
  from make_feature_Inr [OF assms] obtain cls where
    m: "make_p_mask tok truncated_query sp cls = Inr (p_mask f)" and c: "cls_index f = int cls"
    by blast
  from make_p_mask_Inr [OF m]
  have p: "p_mask f = spec_p_mask (tail_positions tok truncated_query sp) tok sp cls"
    and l: "cls < length (p_mask f)"
    by blast+
  have "spec_p_mask (tail_positions tok truncated_query sp) tok sp cls ! cls = 0"
    using l unfolding p by (simp add: spec_p_mask_def nth_set_positions)
  with p l c show ?thesis by simp
qed

lemma p_mask_override_order_example:
  "\<exists>sp f. slice_loop (sample_tokenizer ''right'') [''a'', ''b''] [113] 8 2 []
        (Tokens [''a'', ''b'']) = Some [sp]
     \<and> make_feature (sample_tokenizer ''right'') impossible_example True [113] None sp = Inr f
     \<and> AlibabaFeatures.input_ids f = [1, 113, 2, 97, 98, 2, 0, 0]
     \<and> p_mask f = [0, 1, 1, 0, 0, 1, 1, 1]
     \<and> p_mask f = spec_p_mask (tail_positions (sample_tokenizer ''right'') [113] sp)
          (sample_tokenizer ''right'') sp (nat (cls_index f))"
proof -
  have ev: "map_option (map (\<lambda>sp.
        map_sum id (\<lambda>f. (AlibabaFeatures.input_ids f, p_mask f))
          (make_feature (sample_tokenizer ''right'') impossible_example True [113] None sp)))
      (slice_loop (sample_tokenizer ''right'') [''a'', ''b''] [113] 8 2 []
        (Tokens [''a'', ''b'']))
      = Some [Inr ([1, 113, 2, 97, 98, 2, 0, 0], [0, 1, 1, 0, 0, 1, 1, 1])]"
    by code_simp
  then obtain sp where
    r: "slice_loop (sample_tokenizer ''right'') [''a'', ''b''] [113] 8 2 []
        (Tokens [''a'', ''b'']) = Some [sp]"
    and e: "map_sum id (\<lambda>f. (AlibabaFeatures.input_ids f, p_mask f))
          (make_feature (sample_tokenizer ''right'') impossible_example True [113] None sp)
        = Inr ([1, 113, 2, 97, 98, 2, 0, 0], [0, 1, 1, 0, 0, 1, 1, 1])"
    by (auto simp: map_eq_Cons_conv)
  then obtain f where
    m: "make_feature (sample_tokenizer ''right'') impossible_example True [113] None sp
        = Inr f"
    and v: "AlibabaFeatures.input_ids f = [1, 113, 2, 97, 98, 2, 0, 0]"
      "p_mask f = [0, 1, 1, 0, 0, 1, 1, 1]"
    by (cases "make_feature (sample_tokenizer ''right'') impossible_example True [113] None sp")
       auto
  from p_mask_override_order [OF m] r m v show ?thesis by blast
qed

text \<open>
  When every position after the window's context tokens holds a padding token or a
  special token, as with a sequence padded on the right, the slice assignment and the
  context positions give the same mask.
\<close>

lemma spec_p_mask_tail_eq_context:
  assumes nonneg: "0 \<le> int (length q) + sequence_added_tokens tok"
      and rest: "\<forall>i<length (span.token_type_ids sp).
        int (length q) + sequence_added_tokens tok + span.paragraph_len sp \<le> int i \<longrightarrow>
          i = cls
          \<or> (i < length (span.input_ids sp) \<and> span.input_ids sp ! i = pad_token_id tok)
          \<or> (i < length (get_special_tokens_mask tok (span.input_ids sp))
              \<and> get_special_tokens_mask tok (span.input_ids sp) ! i \<noteq> 0)"
  shows "spec_p_mask (tail_positions tok q sp) tok sp cls
       = spec_p_mask (context_positions tok q sp) tok sp cls"
proof (rule nth_equalityI)
  show "length (spec_p_mask (tail_positions tok q sp) tok sp cls)
      = length (spec_p_mask (context_positions tok q sp) tok sp cls)"
    by (simp add: spec_p_mask_def)
next
  fix i assume "i < length (spec_p_mask (tail_positions tok q sp) tok sp cls)"
  then have i: "i < length (span.token_type_ids sp)" by (simp add: spec_p_mask_def)
  have t: "tail_positions tok q sp i \<longleftrightarrow> int (length q) + sequence_added_tokens tok \<le> int i"
    using nonneg i by (auto simp: tail_positions_def slice_bound_def)
  show "spec_p_mask (tail_positions tok q sp) tok sp cls ! i
      = spec_p_mask (context_positions tok q sp) tok sp cls ! i"
    using i rest [rule_format, OF i] t
    by (auto simp: spec_p_mask_def nth_set_positions context_positions_def)
qed


text \<open>
  C6. The \<open>p_mask\<close> of a feature is to be the result of: every position set to 1, the
  positions of the window's context tokens set to 0, the positions of padding and
  special tokens set back to 1, the position of the classification token set to 0.
  The code is evaluated on a sequence padded on the left,
  \<open>[PAD] [PAD] [CLS] q [SEP] a b [SEP]\<close>: the window's \<open>token_to_orig_map\<close> has the context
  tokens at the positions 3 and 4, and the sequence has them at the positions 5 and 6.
  The mask of the code is \<open>[1, 1, 0, 0, 1, 0, 0, 1]\<close>, with 0 at position 3, which holds
  the query token; the four steps give \<open>[1, 1, 0, 0, 1, 1, 1, 1]\<close> for the positions 3
  and 4 and \<open>[1, 1, 0, 1, 1, 0, 0, 1]\<close> for the positions 5 and 6.
\<close>

theorem p_mask_left_padding:
  "map_option (map_sum id (map (\<lambda>f. (AlibabaFeatures.input_ids f, cls_index f, p_mask f,
        map (AlibabaFeatures.token_to_orig_map f) [0, 1, 2, 3, 4, 5, 6, 7]))))
     (convert_example_to_features py_score (sample_tokenizer ''left'') impossible_example
        8 2 4 True)
     = Some (Inr [([0, 0, 1, 113, 2, 97, 98, 2], 2, [1, 1, 0, 0, 1, 0, 0, 1],
                   [None, None, None, Some 0, Some 1, None, None, None])])
   \<and> map_option (map (\<lambda>sp. spec_p_mask (\<lambda>i. i = 3 \<or> i = 4) (sample_tokenizer ''left'') sp 2))
       (slice_loop (sample_tokenizer ''left'') [''a'', ''b''] [113] 8 2 [] (Tokens [''a'', ''b'']))
     = Some [[1, 1, 0, 0, 1, 1, 1, 1]]
   \<and> map_option (map (\<lambda>sp. spec_p_mask (\<lambda>i. i = 5 \<or> i = 6) (sample_tokenizer ''left'') sp 2))
       (slice_loop (sample_tokenizer ''left'') [''a'', ''b''] [113] 8 2 [] (Tokens [''a'', ''b'']))
     = Some [[1, 1, 0, 1, 1, 0, 0, 1]]"
  by code_simp

lemma fold_map_upd:
  "fold (\<lambda>i m. m(a + int i \<mapsto> b + int i)) [0..<n] Map.empty k
     = (if a \<le> k \<and> k < a + int n then Some (b + (k - a)) else None)"
proof (induction n)
  case 0
  then show ?case by simp
next
  case (Suc n)
  then show ?case by auto
qed

lemma make_span_token_to_orig_map:
  "span.token_to_orig_map (make_span tok d q M s spans sdt) k
     = (if int (length q) + sequence_added_tokens tok \<le> k
          \<and> k < int (length q) + sequence_added_tokens tok
                + span.paragraph_len (make_span tok d q M s spans sdt)
        then Some (start (make_span tok d q M s spans sdt)
                     + (k - (int (length q) + sequence_added_tokens tok)))
        else None)"
proof -
  let ?sp = "make_span tok d q M s spans sdt"
  let ?a = "int (length q) + sequence_added_tokens tok"
  have m: "span.token_to_orig_map ?sp
      = fold (\<lambda>i m. m(?a + int i \<mapsto> start ?sp + int i))
          [0..<nat (span.paragraph_len ?sp)] Map.empty"
    by (simp add: make_span_def Let_def)
  have c: "(?a \<le> k \<and> k < ?a + int (nat (span.paragraph_len ?sp)))
      \<longleftrightarrow> (?a \<le> k \<and> k < ?a + span.paragraph_len ?sp)"
    by linarith
  show ?thesis unfolding m fold_map_upd c ..
qed

lemma make_span_ignores_padding_side:
  "make_span (tok\<lparr>padding_side := side\<rparr>) d q M s spans sdt = make_span tok d q M s spans sdt"
  by (simp add: make_span_def sequence_added_tokens_def sequence_pair_added_tokens_def Let_def
      cong: if_cong)

lemma make_feature_impossible_example:
  assumes "make_feature tok ex tr q tp sp = Inr f" and "AlibabaExample.is_impossible ex"
  shows "AlibabaFeatures.start_position f = 0 \<and> AlibabaFeatures.end_position f = 0
     \<and> AlibabaFeatures.is_impossible f"
  using assms
  by (auto simp: make_feature_def Let_def split: sum.splits)

lemma make_feature_training_possible:
  assumes "make_feature tok ex True q (Some (ts, te)) sp = Inr f"
      and "\<not> AlibabaExample.is_impossible ex"
  shows "if start sp \<le> ts \<and> te \<le> start sp + length' sp - 1
     then AlibabaFeatures.start_position f
            = ts - start sp + (int (length q) + sequence_added_tokens tok)
        \<and> AlibabaFeatures.end_position f
            = te - start sp + (int (length q) + sequence_added_tokens tok)
        \<and> \<not> AlibabaFeatures.is_impossible f
     else AlibabaFeatures.start_position f = cls_index f
        \<and> AlibabaFeatures.end_position f = cls_index f
        \<and> AlibabaFeatures.is_impossible f"
  using assms
  by (auto simp: make_feature_def Let_def split: sum.splits if_splits)

lemma features_loop_all2:
  "features_loop tok ex tr q tp spans = Inr fs \<Longrightarrow>
     list_all2 (\<lambda>sp f. make_feature tok ex tr q tp sp = Inr f) spans fs"
  by (induction spans arbitrary: fs) (auto split: sum.splits)

lemma for_loop_length:
  assumes "\<And>x s s'. f x s = Inr s' \<Longrightarrow> length s' = length s"
    and "for_loop f xs s = Inr s'"
  shows "length s' = length s"
  using assms(2)
proof (induction xs arbitrary: s)
  case Nil
  then show ?case by simp
next
  case (Cons x xs)
  then show ?case by (auto split: sum.splits dest: assms(1))
qed

lemma tag_token_length:
  "tag_token fl tok s i j spans = Inr spans' \<Longrightarrow> length spans' = length spans"
  by (auto simp: tag_token_def Let_def split: sum.splits)

lemma tag_span_length:
  "tag_span fl tok s i spans = Inr spans' \<Longrightarrow> length spans' = length spans"
  unfolding tag_span_def by (rule for_loop_length [OF tag_token_length])

lemma tag_spans_length:
  "tag_spans fl tok s spans = Inr spans' \<Longrightarrow> length spans' = length spans"
  unfolding tag_spans_def by (rule for_loop_length [OF tag_span_length])

lemma convert_example_to_features_Some:
  assumes "convert_example_to_features fl tok ex M s mq tr = Some (Inr fs)"
  shows "\<exists>qt tp spans tagged. question_text ex = Some qt
     \<and> gold_span tok ex (tokenize tok (context_text ex)) tr = Inr tp
     \<and> slice_loop tok (tokenize tok (context_text ex)) (encode tok qt mq) M s []
          (Tokens (tokenize tok (context_text ex))) = Some spans
     \<and> tag_spans fl tok s spans = Inr tagged
     \<and> list_all2 (\<lambda>sp f. make_feature tok ex tr (encode tok qt mq) tp sp = Inr f) tagged fs
     \<and> length fs = length spans"
proof -
  from assms obtain qt tp spans tagged where
    a: "question_text ex = Some qt"
    "gold_span tok ex (tokenize tok (context_text ex)) tr = Inr tp"
    "slice_loop tok (tokenize tok (context_text ex)) (encode tok qt mq) M s []
          (Tokens (tokenize tok (context_text ex))) = Some spans"
    "tag_spans fl tok s spans = Inr tagged"
    "features_loop tok ex tr (encode tok qt mq) tp tagged = Inr fs"
    by (auto simp: convert_example_to_features_def Let_def split: sum.splits option.splits)
  from features_loop_all2 [OF a(5)]
  have l: "list_all2 (\<lambda>sp f. make_feature tok ex tr (encode tok qt mq) tp sp = Inr f) tagged fs" .
  then have "length fs = length tagged" by (auto dest: list_all2_lengthD)
  with tag_spans_length [OF a(4)] have "length fs = length spans" by simp
  with a l show ?thesis by blast
qed

text \<open>
  C1. In training mode every window yields a feature, and a window of an example marked
  impossible is to have \<open>start_position = end_position = cls_index\<close>. The code is
  evaluated on the example \<open>impossible_example\<close> with a tokenizer that pads on the left:
  the sequence is \<open>[PAD] [PAD] [CLS] q [SEP] a b [SEP]\<close>, the classification token is at
  index 2, and the one feature emitted has \<open>start_position = end_position = 0\<close>. The
  branch for an impossible example keeps the initial zeros
  (\<open>make_feature_impossible_example\<close>), where the branch for a gold span outside the
  window stores \<open>cls_index\<close> (\<open>make_feature_training_possible\<close>).
\<close>

theorem impossible_example_start_not_cls:
  "map_option (map_sum id (map (\<lambda>f. (cls_index f, AlibabaFeatures.start_position f,
        AlibabaFeatures.end_position f, AlibabaFeatures.is_impossible f))))
     (convert_example_to_features py_score (sample_tokenizer ''left'') impossible_example
        8 2 4 True)
   = Some (Inr [(2, 0, 0, True)])"
  by code_simp

text \<open>
  C3. The keys of \<open>token_to_orig_map\<close> are to follow the padding side of the tokenizer, as
  the keys of \<open>token_is_max_context\<close> do. The code is evaluated on one example with a
  tokenizer that pads on the left and with one that pads on the right: the map
  \<open>token_to_orig_map\<close> has the keys 3 and 4 in both features, and sends them to the
  original tokens 0 and 1 (the start of the window plus the local index, as
  \<open>make_span_token_to_orig_map\<close> shows in general), while \<open>token_is_max_context\<close> has the
  keys 0 and 1 on the left and 3 and 4 on the right. The window, and with it
  \<open>token_to_orig_map\<close>, does not depend on \<open>padding_side\<close> at all
  (\<open>make_span_ignores_padding_side\<close>).
\<close>

theorem token_to_orig_map_ignores_padding_side:
  "map_option (map_sum id (map (\<lambda>f. (AlibabaFeatures.input_ids f,
        map (AlibabaFeatures.token_to_orig_map f) [0, 1, 2, 3, 4],
        map (AlibabaFeatures.token_is_max_context f) [0, 1, 2, 3, 4]))))
     (convert_example_to_features py_score (sample_tokenizer ''left'') impossible_example
        8 2 4 True)
   = Some (Inr [([0, 0, 1, 113, 2, 97, 98, 2],
                 [None, None, None, Some 0, Some 1],
                 [Some True, Some True, None, None, None])])
   \<and> map_option (map_sum id (map (\<lambda>f. (AlibabaFeatures.input_ids f,
        map (AlibabaFeatures.token_to_orig_map f) [0, 1, 2, 3, 4],
        map (AlibabaFeatures.token_is_max_context f) [0, 1, 2, 3, 4]))))
     (convert_example_to_features py_score (sample_tokenizer ''right'') impossible_example
        8 2 4 True)
   = Some (Inr [([1, 113, 2, 97, 98, 2, 0, 0],
                 [None, None, None, Some 0, Some 1],
                 [None, None, None, Some True, Some True])])"
  by code_simp

section \<open>Properties of the batch driver\<close>

lemma number_example_eq:
  "number_example fs uid ei new =
     (new @ map (\<lambda>k. (fs ! k)\<lparr>example_index := ei, unique_id := uid + int k\<rparr>) [0..<length fs],
      uid + int (length fs))"
proof (induction fs arbitrary: uid new)
  case Nil
  then show ?case by simp
next
  case (Cons f fs)
  have "map (\<lambda>k. ((f # fs) ! k)\<lparr>example_index := ei, unique_id := uid + int k\<rparr>)
          [0..<length (f # fs)]
      = f\<lparr>example_index := ei, unique_id := uid\<rparr>
        # map (\<lambda>k. (fs ! k)\<lparr>example_index := ei, unique_id := uid + 1 + int k\<rparr>) [0..<length fs]"
    by (simp add: map_upt_Suc add.assoc del: upt_Suc)
  with Cons.IH [of "uid + 1" "new @ [f\<lparr>example_index := ei, unique_id := uid\<rparr>]"]
  show ?case by simp
qed

lemma number_example_unique_id:
  "map unique_id (fst (number_example fs uid ei new))
     = map unique_id new @ map (\<lambda>k. uid + int k) [0..<length fs]"
  by (simp add: number_example_eq comp_def)

lemma number_example_example_index:
  "map example_index (fst (number_example fs uid ei new))
     = map example_index new @ replicate (length fs) ei"
  by (simp add: number_example_eq comp_def map_replicate_const)

lemma map_nth_upt: "map (\<lambda>i. f (xs ! i)) [0..<length xs] = map f xs"
  by (rule nth_equalityI) simp_all

lemma number_example_qas_id:
  "map AlibabaFeatures.qas_id (fst (number_example fs uid ei new))
     = map AlibabaFeatures.qas_id new @ map AlibabaFeatures.qas_id fs"
  by (simp add: number_example_eq comp_def map_nth_upt)

lemma number_example_snd: "snd (number_example fs uid ei new) = uid + int (length fs)"
  by (simp add: number_example_eq)

lemma number_features_Cons:
  "number_features (fs # fss) uid ei new =
     (if fs = [] then number_features fss uid ei new
      else number_features fss (uid + int (length fs)) (ei + 1)
             (fst (number_example fs uid ei new)))"
  by (cases fs) (simp_all add: number_example_eq)

lemma map_upt_add:
  "map f [0..<a + b] = map f [0..<a] @ map (\<lambda>k. f (a + k)) [0..<b]"
proof -
  have "[a..<a + b] = map (\<lambda>i. i + a) [0..<b]" by (simp add: map_add_upt add.commute)
  then show ?thesis by (simp add: upt_add_eq_append [of 0 a b] comp_def add.commute)
qed

lemma number_features_unique_id:
  "map unique_id (number_features fss uid ei new)
     = map unique_id new @ map (\<lambda>k. uid + int k) [0..<length (concat fss)]"
proof (induction fss arbitrary: uid ei new)
  case Nil
  then show ?case by simp
next
  case (Cons fs fss)
  show ?case
  proof (cases "fs = []")
    case True
    with Cons.IH [of uid ei new] show ?thesis by (simp add: number_features_Cons del: number_features.simps)
  next
    case False
    with Cons.IH [of "uid + int (length fs)" "ei + 1" "fst (number_example fs uid ei new)"]
    show ?thesis
      by (simp add: number_features_Cons number_example_unique_id map_upt_add add.assoc
          del: upt_Suc number_features.simps)
  qed
qed

lemma number_features_qas_id:
  "map AlibabaFeatures.qas_id (number_features fss uid ei new)
     = map AlibabaFeatures.qas_id new @ concat (map (map AlibabaFeatures.qas_id) fss)"
proof (induction fss arbitrary: uid ei new)
  case Nil
  then show ?case by simp
next
  case (Cons fs fss)
  show ?case
  proof (cases "fs = []")
    case True
    with Cons.IH [of uid ei new] show ?thesis by (simp add: number_features_Cons del: number_features.simps)
  next
    case False
    with Cons.IH [of "uid + int (length fs)" "ei + 1" "fst (number_example fs uid ei new)"]
    show ?thesis
      by (simp add: number_features_Cons number_example_qas_id del: number_features.simps)
  qed
qed

lemma number_features_example_index:
  "map example_index (number_features fss uid ei new)
     = map example_index new
       @ concat (map (\<lambda>j. replicate (length (fss ! j))
                          (ei + int (length (filter (\<lambda>fs. fs \<noteq> []) (take j fss)))))
                   [0..<length fss])"
proof (induction fss arbitrary: uid ei new)
  case Nil
  then show ?case by simp
next
  case (Cons fs fss)
  show ?case
  proof (cases "fs = []")
    case True
    with Cons.IH [of uid ei new] show ?thesis
      by (simp add: number_features_Cons map_upt_Suc del: upt_Suc number_features.simps)
  next
    case False
    with Cons.IH [of "uid + int (length fs)" "ei + 1" "fst (number_example fs uid ei new)"]
    show ?thesis
      by (simp add: number_features_Cons number_example_example_index map_upt_Suc add.assoc
          del: upt_Suc number_features.simps)
  qed
qed

lemma number_features_sorted:
  assumes "sorted (map example_index new)" and "\<forall>x \<in> set new. example_index x < ei"
  shows "sorted (map example_index (number_features fss uid ei new))"
  using assms
proof (induction fss arbitrary: uid ei new)
  case Nil
  then show ?case by simp
next
  case (Cons fs fss)
  show ?case
  proof (cases "fs = []")
    case True
    with Cons.IH [OF Cons.prems, of uid] show ?thesis by (simp add: number_features_Cons del: number_features.simps)
  next
    case False
    let ?new = "fst (number_example fs uid ei new)"
    have s: "sorted (map example_index ?new)"
      using Cons.prems
      by (auto simp: number_example_example_index sorted_append sorted_replicate
          dest: less_imp_le)
    have b: "\<forall>x \<in> set ?new. example_index x < ei + 1"
    proof
      fix x assume "x \<in> set ?new"
      then have "example_index x \<in> set (map example_index ?new)" by simp
      then have "example_index x \<in> example_index ` set new \<union> {ei}"
        unfolding number_example_example_index by (auto split: if_splits)
      with Cons.prems(2) show "example_index x < ei + 1" by auto
    qed
    from Cons.IH [OF s b, of "uid + int (length fs)"] False show ?thesis
      by (simp add: number_features_Cons del: number_features.simps)
  qed
qed

lemma convert_all_Some:
  "convert_all fl tok M s mq tr exs = Some (Inr per) \<Longrightarrow>
     list_all2 (\<lambda>ex fs. convert_example_to_features fl tok ex M s mq tr = Some (Inr fs)) exs per"
  by (induction exs arbitrary: per) (auto split: option.splits sum.splits)

text \<open>
  C7, as amended. When \<open>convert_examples_to_features\<close> returns, its features are those of
  the examples in their order; the \<open>unique_id\<close> of the feature at output position \<open>k\<close> is
  \<open>1000000000 + k\<close>, so the values increase strictly from the base; the \<open>example_index\<close>
  values do not decrease; and the features of input example \<open>j\<close> carry as
  \<open>example_index\<close> the number of examples before \<open>j\<close> that produced at least one
  feature. An example without features is passed over by \<open>continue\<close> and is not counted,
  so this number is \<open>j\<close> only when every earlier example produced a feature.
\<close>

theorem unique_id_and_example_index:
  assumes "convert_examples_to_features fl exs tok M s mq tr = Some (Inr features)"
  shows "\<exists>per.
       list_all2 (\<lambda>ex fs. convert_example_to_features fl tok ex M s mq tr = Some (Inr fs)) exs per
     \<and> map AlibabaFeatures.qas_id features = concat (map (map AlibabaFeatures.qas_id) per)
     \<and> map unique_id features = map (\<lambda>k. 1000000000 + int k) [0..<length features]
     \<and> sorted (map example_index features)
     \<and> map example_index features
         = concat (map (\<lambda>j. replicate (length (per ! j))
                           (int (length (filter (\<lambda>fs. fs \<noteq> []) (take j per)))))
                    [0..<length per])"
proof -
  from assms obtain per where
    c: "convert_all fl tok M s mq tr exs = Some (Inr per)"
    and f: "features = number_features per 1000000000 0 []"
    by (auto simp: convert_examples_to_features_def split: option.splits sum.splits)
  have u: "map unique_id features = map (\<lambda>k. 1000000000 + int k) [0..<length (concat per)]"
    unfolding f by (simp add: number_features_unique_id)
  then have "length features = length (concat per)"
    by (metis length_map length_upt minus_nat.diff_0)
  with u have u': "map unique_id features = map (\<lambda>k. 1000000000 + int k) [0..<length features]"
    by simp
  have q: "map AlibabaFeatures.qas_id features = concat (map (map AlibabaFeatures.qas_id) per)"
    unfolding f by (simp add: number_features_qas_id)
  have srt: "sorted (map example_index features)"
    unfolding f by (rule number_features_sorted) simp_all
  have e: "map example_index features
         = concat (map (\<lambda>j. replicate (length (per ! j))
                           (int (length (filter (\<lambda>fs. fs \<noteq> []) (take j per)))))
                    [0..<length per])"
    unfolding f by (simp add: number_features_example_index)
  from convert_all_Some [OF c] q u' srt e show ?thesis by blast
qed

theorem unique_id_and_example_index_witness:
  "map_option (map_sum id (map (\<lambda>f. (AlibabaFeatures.qas_id f, example_index f, unique_id f))))
     (convert_examples_to_features py_score [answered_example, impossible_example]
        (sample_tokenizer ''right'') 10 3 4 True)
   = Some (Inr [(9, 0, 1000000000), (9, 0, 1000000001), (7, 1, 1000000002)])"
proof -
  have ev: "map_option (map_sum id
        (map (\<lambda>f. (AlibabaFeatures.qas_id f, example_index f, unique_id f))))
     (convert_examples_to_features py_score [answered_example, impossible_example]
        (sample_tokenizer ''right'') 10 3 4 True)
   = Some (Inr [(9, 0, 1000000000), (9, 0, 1000000001), (7, 1, 1000000002)])"
    by code_simp
  then obtain x where
    x: "convert_examples_to_features py_score [answered_example, impossible_example]
        (sample_tokenizer ''right'') 10 3 4 True = Some x"
    by (cases "convert_examples_to_features py_score [answered_example, impossible_example]
        (sample_tokenizer ''right'') 10 3 4 True") auto
  with ev obtain features where "x = Inr features" by (cases x) auto
  with x have
    r: "convert_examples_to_features py_score [answered_example, impossible_example]
        (sample_tokenizer ''right'') 10 3 4 True = Some (Inr features)"
    by simp
  from unique_id_and_example_index [OF r] ev show ?thesis by simp
qed

text \<open>
  The first example has an empty context and yields no feature: the two features of the
  second example, which is example 1 of the input, carry \<open>example_index = 0\<close>.
\<close>

theorem example_index_skips_counterexample:
  "map AlibabaExample.qas_id [empty_context_example, answered_example] = [8, 9]
   \<and> map_option (map_sum id (map (\<lambda>f. (AlibabaFeatures.qas_id f, example_index f))))
       (convert_examples_to_features py_score [empty_context_example, answered_example]
          (sample_tokenizer ''right'') 10 3 4 True)
     = Some (Inr [(9, 0), (9, 0)])"
  by code_simp

end
